theory Spec2Isabelle
  imports Main
begin

section \<open>Strings as the source uses them\<close>

text \<open>
  Python strings are modelled as \<^typ>\<open>string\<close>, one \<^typ>\<open>char\<close> per character, so the
  model covers text whose characters have code points below 256.  On that range
  \<^verbatim>\<open>str.lower()\<close> changes the letters \<open>A\<close> to \<open>Z\<close> and the code points \<open>0xC0\<close> to \<open>0xDE\<close>
  other than \<open>0xD7\<close>, each to the code point 32 above it, and \<^verbatim>\<open>str.strip()\<close> removes the
  twelve characters for which \<^verbatim>\<open>str.isspace()\<close> holds.  A value that the source tests
  only for truthiness (\<^verbatim>\<open>x or y\<close>, \<^verbatim>\<open>if x\<close>) is a string whose falsy forms \<^verbatim>\<open>None\<close> and
  \<^verbatim>\<open>""\<close> are both the empty string.
\<close>

definition upper_letters :: "char list" where
  "upper_letters =
     ''ABCDEFGHIJKLMNOPQRSTUVWXYZ'' @
     [CHR 0xC0, CHR 0xC1, CHR 0xC2, CHR 0xC3, CHR 0xC4, CHR 0xC5, CHR 0xC6,
      CHR 0xC7, CHR 0xC8, CHR 0xC9, CHR 0xCA, CHR 0xCB, CHR 0xCC, CHR 0xCD,
      CHR 0xCE, CHR 0xCF, CHR 0xD0, CHR 0xD1, CHR 0xD2, CHR 0xD3, CHR 0xD4,
      CHR 0xD5, CHR 0xD6, CHR 0xD8, CHR 0xD9, CHR 0xDA, CHR 0xDB, CHR 0xDC,
      CHR 0xDD, CHR 0xDE]"

definition lower_letters :: "char list" where
  "lower_letters =
     ''abcdefghijklmnopqrstuvwxyz'' @
     [CHR 0xE0, CHR 0xE1, CHR 0xE2, CHR 0xE3, CHR 0xE4, CHR 0xE5, CHR 0xE6,
      CHR 0xE7, CHR 0xE8, CHR 0xE9, CHR 0xEA, CHR 0xEB, CHR 0xEC, CHR 0xED,
      CHR 0xEE, CHR 0xEF, CHR 0xF0, CHR 0xF1, CHR 0xF2, CHR 0xF3, CHR 0xF4,
      CHR 0xF5, CHR 0xF6, CHR 0xF8, CHR 0xF9, CHR 0xFA, CHR 0xFB, CHR 0xFC,
      CHR 0xFD, CHR 0xFE]"

definition lower_char :: "char \<Rightarrow> char" where
  "lower_char c = (case map_of (zip upper_letters lower_letters) c of Some d \<Rightarrow> d | None \<Rightarrow> c)"

definition lower :: "string \<Rightarrow> string" where
  "lower s = map lower_char s"

definition is_space :: "char \<Rightarrow> bool" where
  "is_space c =
     (c \<in> {CHR 0x09, CHR 0x0A, CHR 0x0B, CHR 0x0C, CHR 0x0D,
            CHR 0x1C, CHR 0x1D, CHR 0x1E, CHR 0x1F, CHR 0x20, CHR 0x85, CHR 0xA0})"

definition strip :: "string \<Rightarrow> string" where
  "strip s = rev (dropWhile is_space (rev (dropWhile is_space s)))"

text \<open>\<^verbatim>\<open>a or b\<close> on strings: the first operand when it is truthy, else the second.\<close>

definition por :: "string \<Rightarrow> string \<Rightarrow> string" where
  "por a b = (if a \<noteq> [] then a else b)"

text \<open>\<^verbatim>\<open>d.get(k) or ""\<close> on a dictionary of strings, kept as an association list.\<close>

definition dget :: "(string \<times> string) list \<Rightarrow> string \<Rightarrow> string" where
  "dget d k = (case map_of d k of None \<Rightarrow> [] | Some v \<Rightarrow> v)"

section \<open>Session state of the ConversationManager\<close>

datatype service = Google | Microsoft

definition service_name :: "service \<Rightarrow> string" where
  "service_name sv = (case sv of Google \<Rightarrow> ''google'' | Microsoft \<Rightarrow> ''microsoft'')"

text \<open>An identity as \<^verbatim>\<open>_identity_from_header\<close> and \<^verbatim>\<open>_identity_from_graph\<close> build it.\<close>

record identity =
  i_name :: string
  i_email :: string
  i_display :: string

text \<open>
  An entry of \<^verbatim>\<open>recent_contacts\<close>: the dictionary \<^verbatim>\<open>normalized\<close> of \<^verbatim>\<open>_merge_contact\<close>,
  which always has these eight keys.
\<close>

record contact =
  c_id :: string
  c_name :: string
  c_email :: string
  c_display :: string
  c_subject :: string
  c_preview :: string
  c_received :: string
  c_service :: string

text \<open>
  \<^verbatim>\<open>current_email_context\<close> is a dictionary.  Its string-valued keys (\<^verbatim>\<open>id\<close>,
  \<^verbatim>\<open>threadId\<close>, \<^verbatim>\<open>from\<close>, \<^verbatim>\<open>subject\<close>, \<^verbatim>\<open>message-id\<close>, ...) are kept as an
  association list read with \<open>dget\<close>; the four list-valued keys are fields.
\<close>

record email_context =
  e_fields :: "(string \<times> string) list"
  e_reply_to_recipients :: "identity list"
  e_reply_to_emails :: "string list"
  e_to_recipients :: "identity list"
  e_cc_recipients :: "identity list"

definition e_id :: "email_context \<Rightarrow> string" where
  "e_id c = dget (e_fields c) ''id''"

record event_context =
  v_id :: string
  v_organizer :: string
  v_summary :: string

record gdraft =
  d_to :: string
  d_subject :: string
  d_body :: string

record account =
  a_email :: string
  a_display_name :: string

text \<open>What \<^verbatim>\<open>update_context_display\<close> sends to the client.\<close>

record context_view =
  cv_id :: string
  cv_type :: string
  cv_from :: string
  cv_from_email :: string
  cv_subject :: string

text \<open>The messages written to the web socket, in the order they are sent.\<close>

datatype ws_message =
    ContextUpdate "context_view option"
  | DraftPreview string string string
  | DraftClear
  | PeopleList "contact list"

record session =
  service_type :: service
  last_draft_google :: "gdraft option"
  last_draft_microsoft_id :: "string option"
  current_email_context :: "email_context option"
  current_event_context :: "event_context option"
  recent_contacts :: "contact list"
  account_identity :: account
  handled_email_ids :: "string set"
  announced_unread_ids :: "string set"
  outbox :: "ws_message list"

text \<open>The state \<^verbatim>\<open>__init__\<close> builds.\<close>

definition init_session :: "service \<Rightarrow> session" where
  "init_session sv =
     \<lparr> service_type = sv, last_draft_google = None, last_draft_microsoft_id = None,
       current_email_context = None, current_event_context = None, recent_contacts = [],
       account_identity = \<lparr> a_email = [], a_display_name = [] \<rparr>,
       handled_email_ids = {}, announced_unread_ids = {}, outbox = [] \<rparr>"

definition ws_send :: "ws_message \<Rightarrow> session \<Rightarrow> session" where
  "ws_send m s = s\<lparr> outbox := outbox s @ [m] \<rparr>"

section \<open>Contact aggregation: \<^verbatim>\<open>_merge_contact\<close>\<close>

text \<open>The dictionary \<^verbatim>\<open>normalized\<close> built from an observed contact.\<close>

definition normalize_contact :: "service \<Rightarrow> (string \<times> string) list \<Rightarrow> contact" where
  "normalize_contact sv obs =
     (let name0 = strip (por (dget obs ''name'') (por (dget obs ''from_name'') (dget obs ''from'')));
          email = strip (por (dget obs ''email'') (dget obs ''from_email''));
          name = (if name0 = [] \<and> email \<noteq> [] then takeWhile (\<lambda>c. c \<noteq> CHR ''@'') email else name0);
          display0 = strip (por (dget obs ''display'') (dget obs ''from''));
          display = (if display0 = []
                     then (if name \<noteq> [] \<and> email \<noteq> [] then name @ '' <'' @ email @ ''>''
                           else por name (por email ''Unknown Sender''))
                     else display0)
      in \<lparr> c_id = por (dget obs ''id'') (dget obs ''message_id''),
           c_name = por name (por display ''Unknown Sender''),
           c_email = email,
           c_display = display,
           c_subject = dget obs ''subject'',
           c_preview = strip (por (dget obs ''preview'') (dget obs ''body_preview'')),
           c_received = por (dget obs ''received'') (dget obs ''date''),
           c_service = por (dget obs ''service'') (service_name sv) \<rparr>)"

definition key_email :: "contact \<Rightarrow> string option" where
  "key_email n = (if c_email n \<noteq> [] then Some (lower (c_email n)) else None)"

definition key_name :: "contact \<Rightarrow> string option" where
  "key_name n = (if c_name n \<noteq> [] then Some (lower (c_name n)) else None)"

text \<open>The two tests that end \<^verbatim>\<open>_merge_contact\<close> early: the observation is the owner.\<close>

definition is_owner :: "account \<Rightarrow> contact \<Rightarrow> bool" where
  "is_owner acc n =
     (let account_email = lower (a_email acc); account_name = lower (a_display_name acc)
      in (case key_email n of
            Some ke \<Rightarrow> account_email \<noteq> [] \<and> ke = account_email
          | None \<Rightarrow> (case key_name n of
                       Some kn \<Rightarrow> account_name \<noteq> [] \<and> kn = account_name
                     | None \<Rightarrow> False)))"

text \<open>The test of the loop over \<^verbatim>\<open>recent_contacts\<close>: does \<open>existing\<close> take the update?\<close>

definition same_contact :: "contact \<Rightarrow> contact \<Rightarrow> bool" where
  "same_contact n existing =
     (case key_email n of
        Some ke \<Rightarrow> lower (c_email existing) = ke
      | None \<Rightarrow> (case key_name n of
                   Some kn \<Rightarrow> lower (c_name existing) = kn
                 | None \<Rightarrow> False))"

text \<open>\<^verbatim>\<open>for k, v in normalized.items(): if v: existing[k] = v\<close>.\<close>

definition overwrite :: "contact \<Rightarrow> contact \<Rightarrow> contact" where
  "overwrite n existing =
     \<lparr> c_id = por (c_id n) (c_id existing),
       c_name = por (c_name n) (c_name existing),
       c_email = por (c_email n) (c_email existing),
       c_display = por (c_display n) (c_display existing),
       c_subject = por (c_subject n) (c_subject existing),
       c_preview = por (c_preview n) (c_preview existing),
       c_received = por (c_received n) (c_received existing),
       c_service = por (c_service n) (c_service existing) \<rparr>"

text \<open>
  The loop: the first entry that passes the test is updated in place and the loop breaks;
  \<open>None\<close> is \<^verbatim>\<open>merged == False\<close>.
\<close>

fun merge_existing :: "contact \<Rightarrow> contact list \<Rightarrow> contact list option" where
  "merge_existing n [] = None"
| "merge_existing n (existing # rest) =
     (if same_contact n existing then Some (overwrite n existing # rest)
      else map_option ((#) existing) (merge_existing n rest))"

definition merge_contact :: "(string \<times> string) list \<Rightarrow> session \<Rightarrow> session" where
  "merge_contact obs s =
     (if obs = [] then s
      else let n = normalize_contact (service_type s) obs
           in if is_owner (account_identity s) n then s
              else (case merge_existing n (recent_contacts s) of
                      Some cs \<Rightarrow> s\<lparr> recent_contacts := take 15 cs \<rparr>
                    | None \<Rightarrow> s\<lparr> recent_contacts := take 15 (n # recent_contacts s) \<rparr>))"

section \<open>The mail providers\<close>

text \<open>
  The Gmail client and the Graph requests are outside the program: each request is a
  function from its arguments to the answer, and \<open>None\<close> (or \<open>False\<close>, for a request
  whose answer is not read) stands for a request that raises; \<open>m_send\<close> gives the text
  of the exception, if any.  \<open>g_connected\<close> is
  \<^verbatim>\<open>_gmail_service()\<close> not raising.  \<open>parseaddr\<close> and \<open>getaddresses\<close> are the
  header parsers of \<^verbatim>\<open>email.utils\<close>, and \<open>gm_body\<close> is what \<^verbatim>\<open>_get_email_body\<close>
  decodes from the message.
\<close>

record gmail_message =
  gm_id :: string
  gm_threadId :: string
  gm_headers :: "(string \<times> string) list"
  gm_body :: string
  gm_snippet :: string

datatype label_change = RemoveUnread | AddUnread | RemoveInbox

record gmail_api =
  g_connected :: bool
  g_get :: "string \<Rightarrow> gmail_message option"
  g_list :: "string \<Rightarrow> int \<Rightarrow> string option list option"
  g_modify :: "string \<Rightarrow> label_change \<Rightarrow> bool"
  g_trash :: "string \<Rightarrow> bool"
  g_profile :: "string option"
  g_send :: "(string \<times> string) list \<Rightarrow> bool"
  parseaddr :: "string \<Rightarrow> string \<times> string"
  getaddresses :: "string \<Rightarrow> (string \<times> string) list"

text \<open>
  A Graph message: its string-valued properties as an association list (\<^verbatim>\<open>id\<close>,
  \<^verbatim>\<open>subject\<close>, \<^verbatim>\<open>receivedDateTime\<close>, \<^verbatim>\<open>sentDateTime\<close>, \<^verbatim>\<open>bodyPreview\<close>,
  \<^verbatim>\<open>internetMessageId\<close>, and \<^verbatim>\<open>body\<close> for the content of the body), the name and
  address of \<^verbatim>\<open>from.emailAddress\<close>, and the names and addresses of the recipient lists.
\<close>

record outlook_message =
  om_fields :: "(string \<times> string) list"
  om_from :: "string \<times> string"
  om_replyTo :: "(string \<times> string) list"
  om_toRecipients :: "(string \<times> string) list"
  om_ccRecipients :: "(string \<times> string) list"
  om_isRead :: bool

text \<open>
  A draft as Graph returns it: \<open>od_id\<close> is empty when the answer has no \<^verbatim>\<open>id\<close>,
  \<open>od_subject\<close> is \<open>None\<close> when it has no \<^verbatim>\<open>subject\<close>, and a recipient is \<open>None\<close> when it
  has no \<^verbatim>\<open>emailAddress\<close>.
\<close>

record outlook_draft =
  od_id :: string
  od_subject :: "string option"
  od_toRecipients :: "string option list"

record graph_api =
  m_get_message :: "string \<Rightarrow> outlook_message option"
  m_list_messages :: "string option \<Rightarrow> int \<Rightarrow> outlook_message list option"
  m_patch_is_read :: "string \<Rightarrow> bool \<Rightarrow> bool"
  m_me :: "(string \<times> string \<times> string) option"
  m_create_message :: "string \<Rightarrow> string \<Rightarrow> string list \<Rightarrow> string option option"
  m_create_reply :: "string \<Rightarrow> string \<Rightarrow> outlook_draft option"
  m_list_drafts :: "outlook_draft list option"
  m_send :: "string \<Rightarrow> string option"

text \<open>What a tool gives back to \<^verbatim>\<open>execute_tool_calls\<close>: a text, or the value whose JSON text
  \<^verbatim>\<open>json.dumps\<close> writes; \<open>Raised\<close> is an exception that leaves the tool.\<close>

datatype tool_result =
    Text string
  | EmailList "(string \<times> string) list list"
  | EmailJson "(string \<times> string) list"

datatype outcome = Returned tool_result | Raised

section \<open>Helpers on identities and recipients\<close>

definition name_email_display :: "string \<Rightarrow> string \<Rightarrow> string" where
  "name_email_display name email =
     (if name \<noteq> [] \<and> email \<noteq> [] then name @ '' <'' @ email @ ''>''
      else if email \<noteq> [] then email else name)"

definition identity_from_header :: "gmail_api \<Rightarrow> string \<Rightarrow> identity" where
  "identity_from_header g v =
     (let name = strip (fst (parseaddr g v)); email = strip (snd (parseaddr g v))
      in \<lparr> i_name = name, i_email = email,
           i_display = por (name_email_display name email) (strip v) \<rparr>)"

definition identities_from_header :: "gmail_api \<Rightarrow> string \<Rightarrow> identity list" where
  "identities_from_header g v =
     (if v = [] then []
      else map (\<lambda>p. \<lparr> i_name = strip (fst p), i_email = strip (snd p),
                       i_display = name_email_display (strip (fst p)) (strip (snd p)) \<rparr>)
             (filter (\<lambda>p. strip (fst p) \<noteq> [] \<or> strip (snd p) \<noteq> []) (getaddresses g v)))"

definition identity_from_graph :: "string \<times> string \<Rightarrow> identity" where
  "identity_from_graph a =
     (let name = strip (fst a); email = strip (snd a)
      in \<lparr> i_name = name, i_email = email, i_display = name_email_display name email \<rparr>)"

definition identities_from_graph :: "(string \<times> string) list \<Rightarrow> identity list" where
  "identities_from_graph entries =
     filter (\<lambda>i. i_name i \<noteq> [] \<or> i_email i \<noteq> [] \<or> i_display i \<noteq> [])
       (map identity_from_graph entries)"

text \<open>\<^verbatim>\<open>sep.join(parts)\<close>.\<close>

fun join :: "string \<Rightarrow> string list \<Rightarrow> string" where
  "join sep [] = []"
| "join sep [p] = p"
| "join sep (p # q # ps) = p @ sep @ join sep (q # ps)"

definition join_identity_displays :: "identity list \<Rightarrow> string" where
  "join_identity_displays identities =
     join '', ''
       (concat (map (\<lambda>ident.
          let name = strip (i_name ident); email = strip (i_email ident);
              display = strip (i_display ident)
          in if name \<noteq> [] \<and> email \<noteq> [] then [name @ '' <'' @ email @ ''>'']
             else if email \<noteq> [] then [email]
             else if display \<noteq> [] then [display] else []) identities))"

text \<open>\<^verbatim>\<open>s.split(c)\<close> for a one-character separator.\<close>

fun split_on :: "char \<Rightarrow> string \<Rightarrow> string list" where
  "split_on c [] = [[]]"
| "split_on c (x # xs) =
     (if x = c then [] # split_on c xs
      else (x # hd (split_on c xs)) # tl (split_on c xs))"

fun drop_dups :: "string list \<Rightarrow> string list \<Rightarrow> string list" where
  "drop_dups seen [] = []"
| "drop_dups seen (addr # rest) =
     (if addr \<noteq> [] \<and> lower addr \<notin> set seen then addr # drop_dups (lower addr # seen) rest
      else drop_dups seen rest)"

definition split_recipients :: "string \<Rightarrow> string list" where
  "split_recipients to = drop_dups [] (map strip (split_on CHR '','' to))"

text \<open>\<^verbatim>\<open>_parse_headers\<close>: lowercased names; of two headers of one name the later one stays.\<close>

definition parse_headers :: "(string \<times> string) list \<Rightarrow> (string \<times> string) list" where
  "parse_headers hs = rev (map (\<lambda>h. (lower (fst h), snd h)) hs)"

text \<open>\<^verbatim>\<open>d.get(k, default)\<close>.\<close>

definition dget_default :: "(string \<times> string) list \<Rightarrow> string \<Rightarrow> string \<Rightarrow> string" where
  "dget_default d k dflt = (case map_of d k of None \<Rightarrow> dflt | Some v \<Rightarrow> v)"

section \<open>Context display, handled messages, account identity\<close>

definition context_display :: "session \<Rightarrow> context_view option" where
  "context_display s =
     (case current_event_context s of
        Some ev \<Rightarrow> Some \<lparr> cv_id = v_id ev, cv_type = ''Calendar Event'', cv_from = v_organizer ev,
                          cv_from_email = [], cv_subject = v_summary ev \<rparr>
      | None \<Rightarrow>
         (case current_email_context s of
            Some c \<Rightarrow>
              (let sender_name = strip (dget (e_fields c) ''from_name'');
                   sender_email = strip (dget (e_fields c) ''from_email'');
                   sender_display =
                     (if sender_name \<noteq> [] \<and> sender_email \<noteq> []
                      then sender_name @ '' <'' @ sender_email @ ''>''
                      else por (dget (e_fields c) ''from'') (por sender_email sender_name))
               in Some \<lparr> cv_id = e_id c, cv_type = ''Email'', cv_from = sender_display,
                         cv_from_email = sender_email, cv_subject = dget (e_fields c) ''subject'' \<rparr>)
          | None \<Rightarrow> None))"

definition update_context_display :: "session \<Rightarrow> session" where
  "update_context_display s = ws_send (ContextUpdate (context_display s)) s"

definition show_draft :: "string \<Rightarrow> string \<Rightarrow> string \<Rightarrow> session \<Rightarrow> session" where
  "show_draft to subject body s = ws_send (DraftPreview to subject body) s"

definition clear_draft :: "session \<Rightarrow> session" where
  "clear_draft s =
     ws_send DraftClear (s\<lparr> last_draft_google := None, last_draft_microsoft_id := None \<rparr>)"

definition publish_people_list :: "session \<Rightarrow> session" where
  "publish_people_list s = ws_send (PeopleList (recent_contacts s)) s"

definition remember_handled_email :: "string \<Rightarrow> session \<Rightarrow> session" where
  "remember_handled_email message_id s =
     (if message_id \<noteq> [] then s\<lparr> handled_email_ids := insert message_id (handled_email_ids s) \<rparr>
      else s)"

definition is_handled_email :: "session \<Rightarrow> string \<Rightarrow> bool" where
  "is_handled_email s message_id = (message_id \<noteq> [] \<and> message_id \<in> handled_email_ids s)"

definition forget_handled_email :: "string \<Rightarrow> session \<Rightarrow> session" where
  "forget_handled_email message_id s =
     (if message_id \<noteq> []
      then s\<lparr> handled_email_ids := handled_email_ids s - {message_id},
              announced_unread_ids := announced_unread_ids s - {message_id} \<rparr>
      else s)"

definition discard_announced :: "string \<Rightarrow> session \<Rightarrow> session" where
  "discard_announced message_id s =
     s\<lparr> announced_unread_ids := announced_unread_ids s - {message_id} \<rparr>"

text \<open>
  \<^verbatim>\<open>_ensure_account_identity\<close>: nothing is asked once an email is cached; a request that
  raises leaves the empty identity, so that the next call asks again.
\<close>

definition ensure_account_identity :: "gmail_api \<Rightarrow> graph_api \<Rightarrow> session \<Rightarrow> session" where
  "ensure_account_identity g m s =
     (if a_email (account_identity s) \<noteq> [] then s
      else (case service_type s of
              Google \<Rightarrow>
                (case (if g_connected g then g_profile g else None) of
                   None \<Rightarrow> s\<lparr> account_identity := \<lparr> a_email = [], a_display_name = [] \<rparr> \<rparr>
                 | Some address \<Rightarrow>
                     s\<lparr> account_identity :=
                          \<lparr> a_email = lower (strip address), a_display_name = strip address \<rparr> \<rparr>)
            | Microsoft \<Rightarrow>
                (case m_me m of
                   None \<Rightarrow> s\<lparr> account_identity := \<lparr> a_email = [], a_display_name = [] \<rparr> \<rparr>
                 | Some (displayName, mail, userPrincipalName) \<Rightarrow>
                     (let email = strip (por mail userPrincipalName)
                      in s\<lparr> account_identity :=
                            \<lparr> a_email = lower email,
                              a_display_name = strip (por displayName email) \<rparr> \<rparr>))))"

text \<open>\<^verbatim>\<open>message_id or (self.current_email_context and self.current_email_context.get('id'))\<close>.\<close>

definition target_id :: "string \<Rightarrow> session \<Rightarrow> string" where
  "target_id message_id s =
     por message_id (case current_email_context s of None \<Rightarrow> [] | Some c \<Rightarrow> e_id c)"

section \<open>Marking, deleting and archiving messages\<close>

text \<open>\<^verbatim>\<open>_gmail_context_action\<close>; \<open>action\<close> tells whether the request for an id goes through.\<close>

definition gmail_context_action ::
  "string \<Rightarrow> (string \<Rightarrow> bool) \<Rightarrow> string \<Rightarrow> bool \<Rightarrow> session \<Rightarrow> outcome \<times> session" where
  "gmail_context_action message_id action success_msg clear_ctx s =
     (let target = target_id message_id s
      in if target = [] then (Returned (Text ''Error: No message ID.''), s)
         else if \<not> action target then (Raised, s)
         else if clear_ctx \<and> (case current_email_context s of None \<Rightarrow> False
                                  | Some c \<Rightarrow> e_id c = target)
              then (Returned (Text success_msg),
                    update_context_display (s\<lparr> current_email_context := None \<rparr>))
              else (Returned (Text success_msg), s))"

definition gmail_delete_email :: "gmail_api \<Rightarrow> string \<Rightarrow> session \<Rightarrow> outcome \<times> session" where
  "gmail_delete_email g message_id s =
     (if \<not> g_connected g then (Raised, s)
      else gmail_context_action message_id (g_trash g) ''Email deleted.'' True s)"

definition gmail_archive_email :: "gmail_api \<Rightarrow> string \<Rightarrow> session \<Rightarrow> outcome \<times> session" where
  "gmail_archive_email g message_id s =
     gmail_context_action message_id (\<lambda>i. g_connected g \<and> g_modify g i RemoveInbox)
       ''Email archived.'' True s"

definition gmail_mark_as_read :: "gmail_api \<Rightarrow> string \<Rightarrow> session \<Rightarrow> outcome \<times> session" where
  "gmail_mark_as_read g message_id s =
     (let target = target_id message_id s
      in if target = [] then (Returned (Text ''Error: No message ID.''), s)
         else (case gmail_context_action target (\<lambda>i. g_connected g \<and> g_modify g i RemoveUnread)
                      ''Email marked as read.'' False s of
                 (Raised, s') \<Rightarrow> (Raised, s')
               | (Returned r, s') \<Rightarrow>
                   (Returned r, discard_announced target (remember_handled_email target s'))))"

definition gmail_mark_as_unread :: "gmail_api \<Rightarrow> string \<Rightarrow> session \<Rightarrow> outcome \<times> session" where
  "gmail_mark_as_unread g message_id s =
     (let target = target_id message_id s
      in if target = [] then (Returned (Text ''Error: No message ID.''), s)
         else (case gmail_context_action target (\<lambda>i. g_connected g \<and> g_modify g i AddUnread)
                      ''Email marked as unread.'' False s of
                 (Raised, s') \<Rightarrow> (Raised, s')
               | (Returned r, s') \<Rightarrow>
                   (Returned r, discard_announced target (forget_handled_email target s'))))"

definition outlook_mark_as_read :: "graph_api \<Rightarrow> string \<Rightarrow> session \<Rightarrow> outcome \<times> session" where
  "outlook_mark_as_read m message_id s =
     (let target = target_id message_id s
      in if target = [] then (Returned (Text ''Error: No message ID.''), s)
         else if \<not> m_patch_is_read m target True then (Raised, s)
         else (Returned (Text ''Email marked as read.''),
               discard_announced target (remember_handled_email target s)))"

definition outlook_mark_as_unread :: "graph_api \<Rightarrow> string \<Rightarrow> session \<Rightarrow> outcome \<times> session" where
  "outlook_mark_as_unread m message_id s =
     (let target = target_id message_id s
      in if target = [] then (Returned (Text ''Error: No message ID.''), s)
         else if \<not> m_patch_is_read m target False then (Raised, s)
         else (Returned (Text ''Email marked as unread.''),
               discard_announced target (forget_handled_email target s)))"

section \<open>Loading a message into the focus\<close>

text \<open>\<^verbatim>\<open>xs or ys\<close> on lists.\<close>

definition lor :: "'a list \<Rightarrow> 'a list \<Rightarrow> 'a list" where
  "lor xs ys = (if xs \<noteq> [] then xs else ys)"

text \<open>The dictionary \<^verbatim>\<open>context\<close> of \<^verbatim>\<open>_load_gmail_email_into_context\<close>.\<close>

definition gmail_context :: "gmail_api \<Rightarrow> gmail_message \<Rightarrow> email_context" where
  "gmail_context g msg =
     (let headers = parse_headers (gm_headers msg);
          sender = identity_from_header g (dget headers ''from'');
          reply_to_list = lor (identities_from_header g (dget headers ''reply-to''))
                            (if i_email sender \<noteq> [] \<or> i_name sender \<noteq> [] then [sender] else []);
          to_recipients = identities_from_header g (dget headers ''to'');
          cc_recipients = identities_from_header g (dget headers ''cc'')
      in \<lparr> e_fields =
             [(''id'', gm_id msg), (''threadId'', gm_threadId msg),
              (''from'', por (i_display sender) (dget headers ''from'')),
              (''from_name'', i_name sender), (''from_email'', i_email sender),
              (''subject'', dget headers ''subject''),
              (''message-id'', dget headers ''message-id''),
              (''references'', dget headers ''references''),
              (''to'', join_identity_displays to_recipients),
              (''cc'', join_identity_displays cc_recipients),
              (''date'', dget headers ''date''),
              (''reply_to'', join_identity_displays reply_to_list),
              (''body_preview'', take 1000 (gm_body msg))],
           e_reply_to_recipients = reply_to_list,
           e_reply_to_emails = filter (\<lambda>e. e \<noteq> []) (map i_email reply_to_list),
           e_to_recipients = to_recipients,
           e_cc_recipients = cc_recipients \<rparr>)"

text \<open>The observation that both loaders hand to \<^verbatim>\<open>_merge_contact\<close>.\<close>

definition context_contact :: "email_context \<Rightarrow> string \<Rightarrow> service \<Rightarrow> (string \<times> string) list" where
  "context_contact context body_text sv =
     [(''id'', e_id context), (''name'', dget (e_fields context) ''from_name''),
      (''email'', dget (e_fields context) ''from_email''),
      (''display'', dget (e_fields context) ''from''),
      (''subject'', dget (e_fields context) ''subject''),
      (''received'', dget (e_fields context) ''date''),
      (''preview'', take 200 body_text), (''service'', service_name sv)]"

definition load_gmail_email_into_context ::
  "gmail_api \<Rightarrow> graph_api \<Rightarrow> string \<Rightarrow> bool \<Rightarrow> session
     \<Rightarrow> (email_context \<times> string) option \<times> session" where
  "load_gmail_email_into_context g m message_id mark_read s =
     (case (if g_connected g then g_get g message_id else None) of
        None \<Rightarrow> (None, s)
      | Some msg \<Rightarrow>
          (let context = gmail_context g msg;
               body_text = gm_body msg;
               s1 = update_context_display
                      (s\<lparr> current_email_context := Some context, current_event_context := None \<rparr>);
               s2 = ensure_account_identity g m s1;
               s3 = publish_people_list
                      (merge_contact (context_contact context body_text (service_type s2)) s2);
               s4 = (if mark_read \<and> \<not> is_handled_email s3 (e_id context)
                     then snd (gmail_mark_as_read g (e_id context) s3) else s3)
           in (Some (context, body_text), s4)))"

text \<open>The dictionary \<^verbatim>\<open>context\<close> of \<^verbatim>\<open>_load_outlook_email_into_context\<close>.\<close>

definition outlook_body :: "outlook_message \<Rightarrow> string" where
  "outlook_body msg = por (dget (om_fields msg) ''body'') (dget (om_fields msg) ''bodyPreview'')"

definition outlook_context :: "string \<Rightarrow> outlook_message \<Rightarrow> email_context" where
  "outlook_context message_id msg =
     (let sender = identity_from_graph (om_from msg);
          reply_to_list = lor (identities_from_graph (om_replyTo msg))
                            (if i_email sender \<noteq> [] \<or> i_name sender \<noteq> [] then [sender] else []);
          to_recipients = identities_from_graph (om_toRecipients msg);
          cc_recipients = identities_from_graph (om_ccRecipients msg);
          received = por (dget (om_fields msg) ''receivedDateTime'')
                         (dget (om_fields msg) ''sentDateTime'')
      in \<lparr> e_fields =
             [(''id'', dget_default (om_fields msg) ''id'' message_id),
              (''from'', por (i_display sender) (por (i_email sender) (i_name sender))),
              (''from_name'', i_name sender), (''from_email'', i_email sender),
              (''subject'', dget (om_fields msg) ''subject''),
              (''to'', join_identity_displays to_recipients),
              (''cc'', join_identity_displays cc_recipients),
              (''reply_to'', join_identity_displays reply_to_list),
              (''date'', received),
              (''internet_message_id'', dget (om_fields msg) ''internetMessageId''),
              (''body_preview'', take 1000 (outlook_body msg))],
           e_reply_to_recipients = reply_to_list,
           e_reply_to_emails = filter (\<lambda>e. e \<noteq> []) (map i_email reply_to_list),
           e_to_recipients = to_recipients,
           e_cc_recipients = cc_recipients \<rparr>)"

definition load_outlook_email_into_context ::
  "gmail_api \<Rightarrow> graph_api \<Rightarrow> string \<Rightarrow> bool \<Rightarrow> session
     \<Rightarrow> (email_context \<times> string) option \<times> session" where
  "load_outlook_email_into_context g m message_id mark_read s =
     (case m_get_message m message_id of
        None \<Rightarrow> (None, s)
      | Some msg \<Rightarrow>
          (let context = outlook_context message_id msg;
               body_text = outlook_body msg;
               s1 = update_context_display
                      (s\<lparr> current_email_context := Some context, current_event_context := None \<rparr>);
               s2 = ensure_account_identity g m s1;
               s3 = publish_people_list
                      (merge_contact (context_contact context body_text (service_type s2)) s2);
               s4 = (if mark_read \<and> \<not> is_handled_email s3 (e_id context)
                     then snd (outlook_mark_as_read m (e_id context) s3) else s3)
           in (Some (context, body_text), s4)))"

text \<open>The JSON object that \<^verbatim>\<open>gmail_read_email\<close> and \<^verbatim>\<open>outlook_read_email\<close> return.\<close>

definition read_result :: "email_context \<Rightarrow> string \<Rightarrow> tool_result" where
  "read_result context body_text =
     EmailJson
       [(''id'', e_id context), (''from'', dget (e_fields context) ''from''),
        (''from_name'', dget (e_fields context) ''from_name''),
        (''from_email'', dget (e_fields context) ''from_email''),
        (''reply_to'', dget (e_fields context) ''reply_to''),
        (''subject'', dget (e_fields context) ''subject''),
        (''to'', dget (e_fields context) ''to''), (''cc'', dget (e_fields context) ''cc''),
        (''received'', dget (e_fields context) ''date''),
        (''body_preview'', take 1000 body_text)]"

definition gmail_read_email ::
  "gmail_api \<Rightarrow> graph_api \<Rightarrow> string \<Rightarrow> session \<Rightarrow> outcome \<times> session" where
  "gmail_read_email g m message_id s =
     (let target = target_id message_id s
      in if target = [] then (Returned (Text ''Error: No message ID.''), s)
         else (case load_gmail_email_into_context g m target True s of
                 (None, s') \<Rightarrow> (Raised, s')
               | (Some (context, body_text), s') \<Rightarrow>
                   (Returned (read_result context body_text), s')))"

definition outlook_read_email ::
  "gmail_api \<Rightarrow> graph_api \<Rightarrow> string \<Rightarrow> session \<Rightarrow> outcome \<times> session" where
  "outlook_read_email g m message_id s =
     (let target = target_id message_id s
      in if target = [] then (Returned (Text ''Error: No message ID.''), s)
         else (case load_outlook_email_into_context g m target True s of
                 (None, s') \<Rightarrow> (Raised, s')
               | (Some (context, body_text), s') \<Rightarrow>
                   (Returned (read_result context body_text), s')))"

text \<open>
  \<^verbatim>\<open>_ensure_email_context\<close>.  \<open>first_contact_id\<close> is each of its two loops over
  \<^verbatim>\<open>recent_contacts\<close>: the id of the first contact of the session's service that has an id
  and passes \<open>ok\<close>, or nothing.
\<close>

definition first_contact_id :: "(string \<Rightarrow> bool) \<Rightarrow> session \<Rightarrow> string" where
  "first_contact_id ok s =
     (case filter (\<lambda>c. c_service c = service_name (service_type s) \<and> c_id c \<noteq> [] \<and> ok (c_id c))
             (recent_contacts s) of
        [] \<Rightarrow> []
      | c # cs \<Rightarrow> c_id c)"

definition ensure_email_context ::
  "gmail_api \<Rightarrow> graph_api \<Rightarrow> string \<Rightarrow> bool \<Rightarrow> session \<Rightarrow> bool \<times> session" where
  "ensure_email_context g m message_id mark_read s =
     (case (case current_email_context s of
              Some c \<Rightarrow> if message_id = [] \<or> e_id c = message_id then Some c else None
            | None \<Rightarrow> None) of
        Some c \<Rightarrow>
          (True,
           if mark_read \<and> \<not> is_handled_email s (e_id c)
           then (case service_type s of
                   Google \<Rightarrow> snd (gmail_mark_as_read g (e_id c) s)
                 | Microsoft \<Rightarrow> snd (outlook_mark_as_read m (e_id c) s))
           else s)
      | None \<Rightarrow>
          (let target1 = por message_id (first_contact_id (\<lambda>i. \<not> is_handled_email s i) s);
               target2 = por target1 (first_contact_id (\<lambda>i. True) s)
           in if target2 = [] then (False, s)
              else (case (case service_type s of
                            Google \<Rightarrow> load_gmail_email_into_context g m target2 mark_read s
                          | Microsoft \<Rightarrow> load_outlook_email_into_context g m target2 mark_read s) of
                      (None, s') \<Rightarrow> (False, s')
                    | (Some loaded, s') \<Rightarrow> (True, s'))))"

section \<open>Drafts\<close>


text \<open>The draft that \<^verbatim>\<open>gmail_draft_reply\<close> builds from the focused email.\<close>

definition reply_draft :: "email_context \<Rightarrow> string \<Rightarrow> gdraft" where
  "reply_draft c body =
     (let subject0 = dget (e_fields c) ''subject'';
          subject = (if take 3 (lower subject0) = ''re:'' then subject0 else ''Re: '' @ subject0);
          reply_to_recipients =
            lor (e_reply_to_recipients c)
              [\<lparr> i_name = dget (e_fields c) ''from_name'', i_email = dget (e_fields c) ''from_email'',
                 i_display = dget (e_fields c) ''from'' \<rparr>];
          to_field = por (join_identity_displays reply_to_recipients) (dget (e_fields c) ''from'')
      in \<lparr> d_to = to_field, d_subject = subject, d_body = body \<rparr>)"

definition gmail_draft_reply ::
  "gmail_api \<Rightarrow> graph_api \<Rightarrow> string \<Rightarrow> session \<Rightarrow> outcome \<times> session" where
  "gmail_draft_reply g m body s =
     (case ensure_email_context g m [] True s of
        (False, s') \<Rightarrow> (Returned (Text ''Error: No email context to reply to.''), s')
      | (True, s') \<Rightarrow>
          (case current_email_context s' of
             None \<Rightarrow> (Raised, s')
           | Some c \<Rightarrow>
               (let d = reply_draft c body
                in (Returned (Text ''Reply draft created.''),
                    show_draft (d_to d) (d_subject d) body (s'\<lparr> last_draft_google := Some d \<rparr>)))))"

text \<open>The message that \<^verbatim>\<open>gmail_send_draft\<close> hands to the Gmail client, with the threading
  headers of the focused email if it has a \<^verbatim>\<open>message-id\<close>.\<close>

definition outgoing_message :: "gdraft \<Rightarrow> string \<Rightarrow> email_context option \<Rightarrow> (string \<times> string) list" where
  "outgoing_message d address ctx =
     [(''body'', d_body d), (''To'', d_to d), (''From'', address), (''Subject'', d_subject d)]
     @ (case ctx of
          None \<Rightarrow> []
        | Some c \<Rightarrow>
            if dget (e_fields c) ''message-id'' \<noteq> []
            then [(''In-Reply-To'', dget (e_fields c) ''message-id''),
                  (''References'',
                   (if strip (dget (e_fields c) ''references'') \<noteq> []
                    then strip (dget (e_fields c) ''references'') @ '' '' else [])
                   @ dget (e_fields c) ''message-id''),
                  (''threadId'', dget (e_fields c) ''threadId'')]
            else [])"

definition gmail_send_draft :: "gmail_api \<Rightarrow> session \<Rightarrow> outcome \<times> session" where
  "gmail_send_draft g s =
     (case last_draft_google s of
        None \<Rightarrow> (Returned (Text ''Error: No draft to send.''), s)
      | Some d \<Rightarrow>
          (case (if g_connected g then g_profile g else None) of
             None \<Rightarrow> (Raised, s)
           | Some address \<Rightarrow>
               if \<not> g_send g (outgoing_message d address (current_email_context s))
               then (Raised, s)
               else (case (case current_email_context s of
                             None \<Rightarrow> (Returned (Text []), s)
                           | Some c \<Rightarrow> gmail_mark_as_read g (e_id c) s) of
                       (Raised, s1) \<Rightarrow> (Raised, s1)
                     | (Returned r, s1) \<Rightarrow>
                         (Returned (Text ''Email sent.''),
                          update_context_display
                            ((clear_draft s1)\<lparr> current_email_context := None \<rparr>)))))"

definition outlook_draft_new_email ::
  "graph_api \<Rightarrow> string \<Rightarrow> string \<Rightarrow> string \<Rightarrow> session \<Rightarrow> outcome \<times> session" where
  "outlook_draft_new_email m to subject body s =
     (let s1 = update_context_display (s\<lparr> current_email_context := None \<rparr>);
          recipients = split_recipients to
      in (case m_create_message m subject body recipients of
            None \<Rightarrow> (Raised, s1)
          | Some draft_id \<Rightarrow>
              (Returned (Text ''Draft created. Ask user to confirm.''),
               show_draft (join '', '' recipients) subject body
                 (s1\<lparr> last_draft_microsoft_id := draft_id \<rparr>))))"

text \<open>
  The test of the lookup in \<^verbatim>\<open>outlook_draft_reply\<close>: the lowercased subject of a listed
  draft starts with \<open>re:\<close> or \<open>fw:\<close>.
\<close>

definition is_reply_subject :: "outlook_draft \<Rightarrow> bool" where
  "is_reply_subject d =
     (take 3 (lower (case od_subject d of None \<Rightarrow> [] | Some x \<Rightarrow> x)) \<in> {''re:'', ''fw:''})"

text \<open>
  The draft that \<^verbatim>\<open>outlook_draft_reply\<close> ends with: the answer of \<^verbatim>\<open>createReply\<close>, or,
  when that has no id, the first listed draft that passes the test; a listing that raises
  is caught.
\<close>

definition found_reply_draft :: "graph_api \<Rightarrow> outlook_draft \<Rightarrow> outlook_draft" where
  "found_reply_draft m draft =
     (if od_id draft \<noteq> [] then draft
      else (case m_list_drafts m of
              None \<Rightarrow> draft
            | Some ds \<Rightarrow>
                (case filter is_reply_subject ds of
                   [] \<Rightarrow> draft
                 | d # rest \<Rightarrow> d)))"

definition outlook_draft_reply ::
  "gmail_api \<Rightarrow> graph_api \<Rightarrow> string \<Rightarrow> session \<Rightarrow> outcome \<times> session" where
  "outlook_draft_reply g m body s =
     (case ensure_email_context g m [] True s of
        (False, s') \<Rightarrow> (Returned (Text ''Error: No email context to reply to.''), s')
      | (True, s') \<Rightarrow>
          (case current_email_context s' of
             None \<Rightarrow> (Raised, s')
           | Some c \<Rightarrow>
               (case m_create_reply m (e_id c) body of
                  None \<Rightarrow> (Raised, s')
                | Some answer \<Rightarrow>
                    (let draft = found_reply_draft m answer
                     in if od_id draft = []
                        then (Returned (Text ''Error: Could not create a reply draft.''), s')
                        else (Returned (Text ''Reply draft created.''),
                              show_draft
                                (join '', '' (concat (map (\<lambda>r. case r of None \<Rightarrow> [] | Some a \<Rightarrow> [a])
                                                       (od_toRecipients draft))))
                                (case od_subject draft of None \<Rightarrow> ''(No Subject)'' | Some x \<Rightarrow> x)
                                body
                                (s'\<lparr> last_draft_microsoft_id := Some (od_id draft) \<rparr>))))))"

definition outlook_send_draft :: "graph_api \<Rightarrow> session \<Rightarrow> outcome \<times> session" where
  "outlook_send_draft m s =
     (case (case last_draft_microsoft_id s of
              None \<Rightarrow> None
            | Some i \<Rightarrow> if i = [] then None else Some i) of
        None \<Rightarrow> (Returned (Text ''Error: No draft to send.''), s)
      | Some i \<Rightarrow>
          (case m_send m i of
             Some e \<Rightarrow> (Returned (Text (''Error: Could not send the draft. '' @ e)), s)
           | None \<Rightarrow>
               (let handled_id = (case current_email_context s of None \<Rightarrow> [] | Some c \<Rightarrow> e_id c);
                    s1 = clear_draft s;
                    s2 = (if handled_id \<noteq> [] \<and> \<not> is_handled_email s1 handled_id
                          then snd (outlook_mark_as_read m handled_id s1) else s1)
                in (Returned (Text ''Email sent.''),
                    update_context_display (s2\<lparr> current_email_context := None \<rparr>)))))"

section \<open>Searching\<close>

text \<open>\<^verbatim>\<open>sub in s\<close> on strings.\<close>

fun contains :: "string \<Rightarrow> string \<Rightarrow> bool" where
  "contains sub [] = (sub = [])"
| "contains sub (x # xs) = (take (length sub) (x # xs) = sub \<or> contains sub xs)"

text \<open>The query that \<^verbatim>\<open>gmail_search_emails\<close> sends.\<close>

definition normalized_query :: "string \<Rightarrow> string" where
  "normalized_query query =
     (let q0 = strip query;
          q1 = (if \<not> contains ''in:'' (lower q0) then strip (''in:inbox '' @ q0) else q0)
      in if \<not> contains ''is:'' (lower q1) \<and> \<not> contains ''label:'' (lower q1)
         then strip (q1 @ '' is:unread'') else q1)"

text \<open>The dictionary \<^verbatim>\<open>contact\<close> that \<^verbatim>\<open>gmail_search_emails\<close> builds for a listed message.\<close>

definition gmail_search_contact ::
  "gmail_api \<Rightarrow> service \<Rightarrow> string \<Rightarrow> gmail_message \<Rightarrow> (string \<times> string) list" where
  "gmail_search_contact g sv i meta =
     (let headers = parse_headers (gm_headers meta);
          sender = identity_from_header g (dget headers ''from'')
      in [(''id'', i),
          (''from'', por (i_display sender) (por (dget_default headers ''from'' ''...'') ''...'')),
          (''from_name'', i_name sender), (''from_email'', i_email sender),
          (''subject'', dget_default headers ''subject'' ''(No Subject)''),
          (''received'', dget headers ''date''),
          (''body_preview'', take 200 (por (gm_body meta) (gm_snippet meta))),
          (''service'', service_name sv)])"

text \<open>\<^verbatim>\<open>if publish: self._merge_contact(contact)\<close>.\<close>

definition publish_contact :: "bool \<Rightarrow> (string \<times> string) list \<Rightarrow> session \<Rightarrow> session" where
  "publish_contact publish contact s = (if publish then merge_contact contact s else s)"

text \<open>
  The loop over the listed messages.  A listed message without \<^verbatim>\<open>id\<close> is \<open>None\<close>; the
  loop raises on it, and on a message that cannot be fetched (the result \<open>None\<close>).
\<close>

fun gmail_search_loop ::
  "gmail_api \<Rightarrow> bool \<Rightarrow> int \<Rightarrow> string option list \<Rightarrow> (string \<times> string) list list \<Rightarrow> session
     \<Rightarrow> (string \<times> string) list list option \<times> session" where
  "gmail_search_loop g publish max_results [] email_list s = (Some email_list, s)"
| "gmail_search_loop g publish max_results (None # rest) email_list s = (None, s)"
| "gmail_search_loop g publish max_results (Some i # rest) email_list s =
     (if is_handled_email s i then gmail_search_loop g publish max_results rest email_list s
      else (case g_get g i of
              None \<Rightarrow> (None, s)
            | Some meta \<Rightarrow>
                (if max_results \<le> int (length email_list) + 1
                 then (Some (email_list @ [gmail_search_contact g (service_type s) i meta]),
                       publish_contact publish (gmail_search_contact g (service_type s) i meta) s)
                 else gmail_search_loop g publish max_results rest
                        (email_list @ [gmail_search_contact g (service_type s) i meta])
                        (publish_contact publish
                           (gmail_search_contact g (service_type s) i meta) s))))"

definition gmail_search_emails ::
  "gmail_api \<Rightarrow> graph_api \<Rightarrow> string \<Rightarrow> int \<Rightarrow> bool \<Rightarrow> session \<Rightarrow> outcome \<times> session" where
  "gmail_search_emails g m query max_results publish s =
     (if \<not> g_connected g then (Raised, s)
      else (let s1 = (if publish then ensure_account_identity g m s else s)
            in (case g_list g (normalized_query query) max_results of
                  None \<Rightarrow> (Raised, s1)
                | Some messages \<Rightarrow>
                    (case gmail_search_loop g publish max_results messages [] s1 of
                       (None, s2) \<Rightarrow> (Raised, s2)
                     | (Some email_list, s2) \<Rightarrow>
                         if email_list = []
                         then (Returned (Text (''No emails found for '' @ [CHR 0x27] @ query
                                               @ [CHR 0x27])), s2)
                         else (Returned (EmailList email_list),
                               if publish then publish_people_list s2 else s2)))))"

text \<open>The dictionary \<^verbatim>\<open>contact\<close> that \<^verbatim>\<open>outlook_search_emails\<close> builds.\<close>

definition outlook_search_contact :: "service \<Rightarrow> outlook_message \<Rightarrow> (string \<times> string) list" where
  "outlook_search_contact sv msg =
     (let sender_name = strip (fst (om_from msg));
          sender_email = strip (snd (om_from msg));
          sender_display =
            (if sender_name \<noteq> [] \<and> sender_email \<noteq> []
             then sender_name @ '' <'' @ sender_email @ ''>''
             else por sender_name (por sender_email ''...''))
      in [(''id'', dget (om_fields msg) ''id''),
          (''from'', sender_display),
          (''from_name'', sender_name), (''from_email'', sender_email),
          (''subject'', por (dget (om_fields msg) ''subject'') ''(No Subject)''),
          (''received'', dget (om_fields msg) ''receivedDateTime''),
          (''body_preview'', take 200 (dget (om_fields msg) ''bodyPreview'')),
          (''service'', service_name sv)])"

fun outlook_search_loop ::
  "bool \<Rightarrow> int \<Rightarrow> outlook_message list \<Rightarrow> (string \<times> string) list list \<Rightarrow> session
     \<Rightarrow> (string \<times> string) list list \<times> session" where
  "outlook_search_loop publish max_results [] email_list s = (email_list, s)"
| "outlook_search_loop publish max_results (msg # rest) email_list s =
     (if om_isRead msg \<or> is_handled_email s (dget (om_fields msg) ''id'')
      then outlook_search_loop publish max_results rest email_list s
      else if max_results \<le> int (length email_list) + 1
      then (email_list @ [outlook_search_contact (service_type s) msg],
            publish_contact publish (outlook_search_contact (service_type s) msg) s)
      else outlook_search_loop publish max_results rest
             (email_list @ [outlook_search_contact (service_type s) msg])
             (publish_contact publish (outlook_search_contact (service_type s) msg) s))"

definition outlook_search_emails ::
  "gmail_api \<Rightarrow> graph_api \<Rightarrow> string \<Rightarrow> int \<Rightarrow> bool \<Rightarrow> session \<Rightarrow> outcome \<times> session" where
  "outlook_search_emails g m query max_results publish s =
     (let s1 = (if publish then ensure_account_identity g m s else s)
      in (case (if strip query = [] then m_list_messages m None max_results
                else m_list_messages m (Some query) (max_results * 3)) of
            None \<Rightarrow> (Raised, s1)
          | Some messages \<Rightarrow>
              (case outlook_search_loop publish max_results messages [] s1 of
                 (email_list, s2) \<Rightarrow>
                   if email_list = []
                   then (Returned (Text (if strip query = [] then ''No emails found.''
                                         else ''No emails found for '' @ [CHR 0x27] @ query
                                              @ [CHR 0x27])), s2)
                   else (Returned (EmailList email_list),
                         if publish then publish_people_list s2 else s2))))"

section \<open>Sequences of draft calls\<close>








section \<open>The invariant of the contact list\<close>

text \<open>No entry is the owner, by the test of \<^verbatim>\<open>_merge_contact\<close>, and at most 15 entries.\<close>

definition contacts_ok :: "account \<Rightarrow> contact list \<Rightarrow> bool" where
  "contacts_ok acc cs = (list_all (\<lambda>e. \<not> is_owner acc e) cs \<and> length cs \<le> 15)"

section \<open>Suggestions in an assistant message: \<^verbatim>\<open>_extract_suggestions\<close>\<close>

text \<open>
  \<open>split_at tag s\<close> cuts \<open>s\<close> at the first occurrence of \<open>tag\<close>: the text before it and
  the text after it.
\<close>

fun split_at :: "string \<Rightarrow> string \<Rightarrow> (string \<times> string) option" where
  "split_at tag [] = (if tag = [] then Some ([], []) else None)"
| "split_at tag (x # xs) =
     (if take (length tag) (x # xs) = tag then Some ([], drop (length tag) (x # xs))
      else map_option (\<lambda>p. (x # fst p, snd p)) (split_at tag xs))"

definition open_tag :: string where
  "open_tag = ''<suggestions>''"

definition close_tag :: string where
  "close_tag = ''</suggestions>''"

text \<open>
  The matches of \<^verbatim>\<open><suggestions>(.*?)</suggestions>\<close> with \<^verbatim>\<open>re.DOTALL\<close>, from left to right
  and without overlap: a match starts at the first opening tag and ends with the first
  closing tag after it, and the search goes on behind the match; when no closing tag
  follows, nothing more matches.  The first component is \<^verbatim>\<open>findall(message)\<close>, the
  payloads of the matches; the second is \<^verbatim>\<open>sub("", message)\<close>, the message without them.
\<close>

function scan_blocks :: "string \<Rightarrow> string list \<times> string" where
  "scan_blocks message =
     (case split_at open_tag message of
        None \<Rightarrow> ([], message)
      | Some (pre, rest) \<Rightarrow>
          (case split_at close_tag rest of
             None \<Rightarrow> ([], message)
           | Some (raw, post) \<Rightarrow>
               (raw # fst (scan_blocks post), pre @ snd (scan_blocks post))))"
  by pat_completeness auto
termination
proof -
  have len: "length (snd p) \<le> length xs" if "split_at tag xs = Some p" for tag xs p
    using that by (induction xs arbitrary: p) (auto split: if_splits)
  have len_open: "length (snd p) < length xs" if "split_at open_tag xs = Some p" for xs p
    using that by (induction xs arbitrary: p) (auto simp: open_tag_def split: if_splits)
  have step: "length post < length message"
    if "split_at open_tag message = Some (pre, rest)" "split_at close_tag rest = Some (raw, post)"
    for message pre rest raw post
    using len_open [OF that(1)] len [OF that(2)] by simp
  show ?thesis
    by (relation "measure length") (auto intro: step)
qed

text \<open>
  A JSON value as \<^verbatim>\<open>json.loads\<close> gives it (numbers as integers; an object as the list of
  its items).  \<^verbatim>\<open>json.loads\<close> itself is a parameter \<open>loads\<close>, with \<open>None\<close> for
  \<^verbatim>\<open>JSONDecodeError\<close>.
\<close>

datatype json =
    JNull
  | JBool bool
  | JNum int
  | JStr string
  | JArr "json list"
  | JObj "(string \<times> json) list"

fun truthy :: "json \<Rightarrow> bool" where
  "truthy JNull = False"
| "truthy (JBool b) = b"
| "truthy (JNum n) = (n \<noteq> 0)"
| "truthy (JStr s) = (s \<noteq> [])"
| "truthy (JArr xs) = (xs \<noteq> [])"
| "truthy (JObj d) = (d \<noteq> [])"

text \<open>\<^verbatim>\<open>a or b\<close> and \<^verbatim>\<open>d.get(k)\<close> on JSON values.\<close>

definition jor :: "json \<Rightarrow> json \<Rightarrow> json" where
  "jor a b = (if truthy a then a else b)"

definition jget :: "(string \<times> json) list \<Rightarrow> string \<Rightarrow> json" where
  "jget d k = (case map_of d k of None \<Rightarrow> JNull | Some v \<Rightarrow> v)"

text \<open>\<^verbatim>\<open>x.strip()\<close>: only a string has it; on any other value the call raises (\<open>None\<close>).\<close>

fun stripped :: "json \<Rightarrow> string option" where
  "stripped (JStr s) = Some (strip s)"
| "stripped other = None"

text \<open>
  The body of the inner loop for one \<open>item\<close>: the pair to append, if any; \<open>None\<close> when it
  raises, because the item is no object or a label or prompt is no string.
\<close>

fun item_suggestion :: "json \<Rightarrow> (string \<times> string) list option" where
  "item_suggestion (JObj d) =
     (case stripped (jor (jget d ''label'') (jor (jget d ''title'') (JStr []))) of
        None \<Rightarrow> None
      | Some label \<Rightarrow>
          (case stripped (jor (jget d ''prompt'') (jor (jget d ''text'') (JStr label))) of
             None \<Rightarrow> None
           | Some prompt \<Rightarrow>
               Some (if label \<noteq> [] \<and> prompt \<noteq> [] then [(label, prompt)] else [])))"
| "item_suggestion other = None"

fun items_suggestions :: "json list \<Rightarrow> (string \<times> string) list option" where
  "items_suggestions [] = Some []"
| "items_suggestions (item # rest) =
     (case item_suggestion item of
        None \<Rightarrow> None
      | Some found \<Rightarrow> map_option ((@) found) (items_suggestions rest))"

text \<open>
  What \<^verbatim>\<open>for item in payload.get("items", [])\<close> runs over: the elements of an array, the
  characters of a string, the keys of an object; \<open>None\<close> when the payload is no object or
  the value cannot be iterated.
\<close>

fun iterate :: "json \<Rightarrow> json list option" where
  "iterate (JArr xs) = Some xs"
| "iterate (JStr s) = Some (map (\<lambda>c. JStr [c]) s)"
| "iterate (JObj d) = Some (map (\<lambda>kv. JStr (fst kv)) d)"
| "iterate other = None"

fun payload_items :: "json \<Rightarrow> json list option" where
  "payload_items (JObj d) = (case map_of d ''items'' of None \<Rightarrow> Some [] | Some v \<Rightarrow> iterate v)"
| "payload_items other = None"

text \<open>One pass of the outer loop: a payload that does not parse is skipped.\<close>

definition block_suggestions :: "(string \<Rightarrow> json option) \<Rightarrow> string \<Rightarrow> (string \<times> string) list option" where
  "block_suggestions loads raw =
     (case loads raw of
        None \<Rightarrow> Some []
      | Some payload \<Rightarrow>
          (case payload_items payload of
             None \<Rightarrow> None
           | Some items \<Rightarrow> items_suggestions items))"

fun blocks_suggestions ::
  "(string \<Rightarrow> json option) \<Rightarrow> string list \<Rightarrow> (string \<times> string) list option" where
  "blocks_suggestions loads [] = Some []"
| "blocks_suggestions loads (raw # rest) =
     (case block_suggestions loads raw of
        None \<Rightarrow> None
      | Some found \<Rightarrow> map_option ((@) found) (blocks_suggestions loads rest))"

text \<open>\<^verbatim>\<open>_extract_suggestions\<close>: the cleaned message and the suggestions, or \<open>None\<close> when it
  raises.\<close>

definition extract_suggestions ::
  "(string \<Rightarrow> json option) \<Rightarrow> string \<Rightarrow> (string \<times> (string \<times> string) list) option" where
  "extract_suggestions loads message =
     (if message = [] then Some ([], [])
      else (case blocks_suggestions loads (fst (scan_blocks message)) of
              None \<Rightarrow> None
            | Some suggestions \<Rightarrow> Some (strip (snd (scan_blocks message)), suggestions)))"

text \<open>
  \<^verbatim>\<open>renderSuggestions\<close> of the client page: the chips it shows for the items of a
  \<^verbatim>\<open>suggestions\<close> message, each with its label and the prompt it sends.
\<close>

definition renderSuggestions :: "(string \<times> string) list \<Rightarrow> (string \<times> string) list" where
  "renderSuggestions items =
     concat (map (\<lambda>item. if por (fst item) (snd item) = [] \<or> por (snd item) (fst item) = [] then []
                          else [(por (fst item) (snd item), por (snd item) (fst item))])
               (take 3 items))"

section \<open>Messages written as a text with blocks\<close>

text \<open>
  A message as the assistant writes it: a text \<open>t0\<close>, then blocks, each an opening tag, a
  payload, a closing tag and the text that follows the block.  A block is given as its
  payload, the pairs that the payload lists (\<open>None\<close> for a payload that is not JSON) and
  the text after the block.
\<close>

type_synonym block = "string \<times> (string \<times> string) list option \<times> string"

definition block_payload :: "block \<Rightarrow> string" where
  "block_payload b = fst b"

definition block_listed :: "block \<Rightarrow> (string \<times> string) list option" where
  "block_listed b = fst (snd b)"

definition text_after :: "block \<Rightarrow> string" where
  "text_after b = snd (snd b)"

fun assemble :: "string \<Rightarrow> block list \<Rightarrow> string" where
  "assemble t0 [] = t0"
| "assemble t0 (b # blocks) =
     t0 @ open_tag @ block_payload b @ close_tag @ assemble (text_after b) blocks"

text \<open>
  \<open>no_tag tag t\<close>: no occurrence of \<open>tag\<close> starts in \<open>t\<close>, not even one that the first
  characters of a following \<open>tag\<close> would complete.  In a well tagged message no text has
  an opening tag of its own and no payload a closing tag.
\<close>

definition no_tag :: "string \<Rightarrow> string \<Rightarrow> bool" where
  "no_tag tag t = (split_at tag (t @ butlast tag) = None)"

fun well_tagged :: "string \<Rightarrow> block list \<Rightarrow> bool" where
  "well_tagged t0 [] = no_tag open_tag t0"
| "well_tagged t0 (b # blocks) =
     (no_tag open_tag t0 \<and> no_tag close_tag (block_payload b) \<and> well_tagged (text_after b) blocks)"

text \<open>
  The JSON value of a payload that lists the pairs \<open>ps\<close>, each as an object with a
  \<^verbatim>\<open>label\<close> and a \<^verbatim>\<open>prompt\<close>.  \<open>parsed_as loads b\<close>: \<^verbatim>\<open>json.loads\<close> answers for the payload
  of \<open>b\<close> as \<open>b\<close> says, and no listed label or prompt is blank.
\<close>

definition item_of :: "string \<times> string \<Rightarrow> json" where
  "item_of p = JObj [(''label'', JStr (fst p)), (''prompt'', JStr (snd p))]"

definition payload_of :: "(string \<times> string) list \<Rightarrow> json" where
  "payload_of ps = JObj [(''items'', JArr (map item_of ps))]"

definition parsed_as :: "(string \<Rightarrow> json option) \<Rightarrow> block \<Rightarrow> bool" where
  "parsed_as loads b =
     (loads (block_payload b) = map_option payload_of (block_listed b)
      \<and> (case block_listed b of
            None \<Rightarrow> True
          | Some ps \<Rightarrow> list_all (\<lambda>p. strip (fst p) \<noteq> [] \<and> strip (snd p) \<noteq> []) ps))"

text \<open>The pairs of a block with label and prompt stripped; none for a payload that is not JSON.\<close>

definition block_pairs :: "block \<Rightarrow> (string \<times> string) list" where
  "block_pairs b =
     (case block_listed b of
        None \<Rightarrow> []
      | Some ps \<Rightarrow> map (\<lambda>p. (strip (fst p), strip (snd p))) ps)"

section \<open>Concrete inputs\<close>

text \<open>Three observations as \<^verbatim>\<open>gmail_search_emails\<close> builds them: Bob, Ann, then Bob again.\<close>

definition obs_bob :: "(string \<times> string) list" where
  "obs_bob = [(''id'', ''m1''), (''from_name'', ''Bob''), (''from_email'', ''bob@x.com''),
              (''subject'', ''Hello'')]"

definition obs_ann :: "(string \<times> string) list" where
  "obs_ann = [(''id'', ''m2''), (''from_name'', ''Ann''), (''from_email'', ''ann@x.com''),
              (''subject'', ''Lunch'')]"

definition obs_bob_again :: "(string \<times> string) list" where
  "obs_bob_again = [(''id'', ''m3''), (''from_name'', ''Bob''), (''from_email'', ''Bob@X.com''),
                    (''subject'', ''Update'')]"

definition entry_bob :: contact where
  "entry_bob = \<lparr> c_id = ''m1'', c_name = ''Bob'', c_email = ''bob@x.com'',
                 c_display = ''Bob <bob@x.com>'', c_subject = ''Hello'', c_preview = [],
                 c_received = [], c_service = ''google'' \<rparr>"

definition entry_ann :: contact where
  "entry_ann = \<lparr> c_id = ''m2'', c_name = ''Ann'', c_email = ''ann@x.com'',
                 c_display = ''Ann <ann@x.com>'', c_subject = ''Lunch'', c_preview = [],
                 c_received = [], c_service = ''google'' \<rparr>"

text \<open>The session after Bob and then Ann were observed.\<close>

definition session_ann_bob :: session where
  "session_ann_bob = merge_contact obs_ann (merge_contact obs_bob (init_session Google))"

text \<open>A Gmail account that answers every request; the inbox holds a message of Bob (\<open>m1\<close>)
  and one of Ann (\<open>m2\<close>).\<close>

definition demo_parseaddr :: "string \<Rightarrow> string \<times> string" where
  "demo_parseaddr v =
     (if v = ''Bob <bob@x.com>'' then (''Bob'', ''bob@x.com'')
      else if v = ''Ann <ann@x.com>'' then (''Ann'', ''ann@x.com'')
      else if v = ''Me <me@x.com>'' then (''Me'', ''me@x.com'')
      else ([], []))"

definition msg_bob :: gmail_message where
  "msg_bob = \<lparr> gm_id = ''m1'', gm_threadId = ''t1'',
               gm_headers = [(''From'', ''Bob <bob@x.com>''), (''Subject'', ''Hello'')],
               gm_body = ''Hi there'', gm_snippet = ''Hi'' \<rparr>"

definition msg_ann :: gmail_message where
  "msg_ann = \<lparr> gm_id = ''m2'', gm_threadId = ''t2'',
               gm_headers = [(''From'', ''Ann <ann@x.com>''), (''Subject'', ''Lunch'')],
               gm_body = ''Noon?'', gm_snippet = ''Noon?'' \<rparr>"

definition gmail_up :: gmail_api where
  "gmail_up =
     \<lparr> g_connected = True,
       g_get = (\<lambda>i. if i = ''m1'' then Some msg_bob else if i = ''m2'' then Some msg_ann else None),
       g_list = (\<lambda>q n. Some [Some ''m1'', Some ''m2'']),
       g_modify = (\<lambda>i c. True),
       g_trash = (\<lambda>i. True),
       g_profile = Some ''me@x.com'',
       g_send = (\<lambda>d. True),
       parseaddr = demo_parseaddr,
       getaddresses = (\<lambda>v. []) \<rparr>"

text \<open>An Outlook account that answers every request, with the same two messages, unread.\<close>

definition omsg_bob :: outlook_message where
  "omsg_bob = \<lparr> om_fields = [(''id'', ''m1''), (''subject'', ''Hello''), (''body'', ''Hi there'')],
                om_from = (''Bob'', ''bob@x.com''), om_replyTo = [], om_toRecipients = [],
                om_ccRecipients = [], om_isRead = False \<rparr>"

definition omsg_ann :: outlook_message where
  "omsg_ann = \<lparr> om_fields = [(''id'', ''m2''), (''subject'', ''Lunch''), (''body'', ''Noon?'')],
                om_from = (''Ann'', ''ann@x.com''), om_replyTo = [], om_toRecipients = [],
                om_ccRecipients = [], om_isRead = False \<rparr>"

definition graph_up :: graph_api where
  "graph_up =
     \<lparr> m_get_message = (\<lambda>i. if i = ''m1'' then Some omsg_bob
                             else if i = ''m2'' then Some omsg_ann else None),
       m_list_messages = (\<lambda>q n. Some [omsg_bob, omsg_ann]),
       m_patch_is_read = (\<lambda>i r. True),
       m_me = Some (''Me'', ''me@x.com'', ''me@x.com''),
       m_create_message = (\<lambda>subject body to. Some (Some ''d1'')),
       m_create_reply = (\<lambda>i body. Some \<lparr> od_id = ''d2'', od_subject = Some ''RE: Hello'',
                                          od_toRecipients = [Some ''bob@x.com''] \<rparr>),
       m_list_drafts = Some [],
       m_send = (\<lambda>i. None) \<rparr>"




text \<open>The Gmail session after a first search of the inbox.\<close>

definition session_searched :: session where
  "session_searched = snd (gmail_search_emails gmail_up graph_up [] 5 True (init_session Google))"

text \<open>
  A Gmail account whose inbox holds one unread message that the owner sent to themself,
  once with a profile request that raises and once with one that answers; and the session
  after a search with the first and then a search with the second.
\<close>

definition msg_me :: gmail_message where
  "msg_me = \<lparr> gm_id = ''m9'', gm_threadId = ''t9'',
              gm_headers = [(''From'', ''Me <me@x.com>''), (''Subject'', ''Note to self'')],
              gm_body = ''Buy milk'', gm_snippet = ''Buy milk'' \<rparr>"

definition gmail_self :: gmail_api where
  "gmail_self = gmail_up\<lparr> g_get := (\<lambda>i. if i = ''m9'' then Some msg_me else None),
                          g_list := (\<lambda>q n. Some [Some ''m9'']) \<rparr>"

definition gmail_self_noprofile :: gmail_api where
  "gmail_self_noprofile = gmail_self\<lparr> g_profile := None \<rparr>"

definition session_late_identity :: session where
  "session_late_identity =
     snd (gmail_search_emails gmail_self graph_up [] 5 True
       (snd (gmail_search_emails gmail_self_noprofile graph_up [] 5 True (init_session Google))))"

text \<open>An observation of the owner, and sessions in which Bob's message was marked read.\<close>

definition obs_me :: "(string \<times> string) list" where
  "obs_me = [(''id'', ''m9''), (''from_name'', ''Me''), (''from_email'', ''Me@X.com'')]"

definition session_marked :: session where
  "session_marked = snd (gmail_mark_as_read gmail_up ''m1'' (init_session Google))"

definition session_marked_outlook :: session where
  "session_marked_outlook = snd (outlook_mark_as_read graph_up ''m1'' (init_session Microsoft))"




text \<open>
  Accounts that answer no request for a message, and the Outlook session after a first
  search of the inbox.
\<close>

definition gmail_down :: gmail_api where
  "gmail_down = gmail_up\<lparr> g_get := (\<lambda>i. None) \<rparr>"

definition graph_down :: graph_api where
  "graph_down = graph_up\<lparr> m_get_message := (\<lambda>i. None) \<rparr>"

definition session_searched_outlook :: session where
  "session_searched_outlook =
     snd (outlook_search_emails gmail_up graph_up [] 5 True (init_session Microsoft))"

text \<open>
  A message with a block of four suggestions, one with a block that is not JSON, one with a
  block of two suggestions followed by a block that is not JSON, and \<^verbatim>\<open>json.loads\<close> on the
  three payloads.
\<close>

definition payload_four :: string where
  \<open>payload_four = ''{"items": [{"label": "A"}, {"label": "B"}, {"label": "C"}, {"label": "D"}]}''\<close>

definition message_four :: string where
  "message_four = ''Pick one. <suggestions>'' @ payload_four @ ''</suggestions>''"

definition message_broken :: string where
  "message_broken = ''All done. <suggestions>{oops</suggestions>''"

definition payload_two :: string where
  \<open>payload_two = ''{"items": [{"label": " Yes ", "prompt": "Send it"}, {"label": "No", "prompt": "Discard it"}]}''\<close>

definition blocks_mixed :: "block list" where
  "blocks_mixed = [(payload_two, Some [('' Yes '', ''Send it''), (''No'', ''Discard it'')], '' Or ''),
                   (''{oops'', None, ''wait. '')]"

definition demo_loads :: "string \<Rightarrow> json option" where
  "demo_loads raw =
     (if raw = payload_four
      then Some (JObj [(''items'', JArr [JObj [(''label'', JStr ''A'')], JObj [(''label'', JStr ''B'')],
                                         JObj [(''label'', JStr ''C'')], JObj [(''label'', JStr ''D'')]])])
      else if raw = payload_two
      then Some (JObj [(''items'',
                   JArr [JObj [(''label'', JStr '' Yes ''), (''prompt'', JStr ''Send it'')],
                         JObj [(''label'', JStr ''No''), (''prompt'', JStr ''Discard it'')]])])
      else None)"

section \<open>Properties of the contact list\<close>

lemmas contact_eval =
  merge_contact_def normalize_contact_def init_session_def is_owner_def same_contact_def
  overwrite_def key_email_def key_name_def por_def dget_def strip_def is_space_def lower_def
  lower_char_def upper_letters_def lower_letters_def service_name_def Let_def

text \<open>
  \<^verbatim>\<open>str.lower()\<close> and \<^verbatim>\<open>str.strip()\<close> beyond ASCII: the accented capitals are lowered, the
  multiplication sign and the sharp s stay, and the no-break space and the next-line
  character are stripped like a blank.
\<close>

lemma lower_latin1:
  "lower [CHR 0x52, CHR 0xC9, CHR 0xD7, CHR 0xDF, CHR 0x4E] = [CHR 0x72, CHR 0xE9, CHR 0xD7, CHR 0xDF, CHR 0x6E]"
  by code_simp

lemma strip_latin1: "strip [CHR 0xA0, CHR 0x20, CHR 0x61, CHR 0x85, CHR 0x0A] = [CHR 0x61]"
  by code_simp

lemma merge_existing_split:
  "(\<forall>x \<in> set pre. \<not> same_contact n x) \<Longrightarrow> same_contact n e \<Longrightarrow>
   merge_existing n (pre @ e # post) = Some (pre @ overwrite n e # post)"
  by (induction pre) auto

lemma merge_existing_none:
  "(\<forall>x \<in> set cs. \<not> same_contact n x) \<Longrightarrow> merge_existing n cs = None"
  by (induction cs) auto

lemma session_ann_bob_contacts: "recent_contacts session_ann_bob = [entry_ann, entry_bob]"
  by (simp add: session_ann_bob_def obs_ann_def obs_bob_def entry_ann_def entry_bob_def contact_eval)

text \<open>
  Claim C7, as the source has it.  An observation that is not the owner's is normalised to
  \<open>n\<close>.  When an entry of the list passes the test of the loop (the same lowercased
  email, or for an observation without email the same lowercased name), the first such
  entry takes every non-empty field of \<open>n\<close> and stays at its position: the entries before
  and after it are unchanged and nothing moves to the front.  When no entry passes the
  test, \<open>n\<close> is inserted at the front.  In both cases the list is cut to its first 15 entries.
\<close>

theorem merge_contact_upsert:
  assumes "obs \<noteq> []"
    and "n = normalize_contact (service_type s) obs"
    and "\<not> is_owner (account_identity s) n"
  shows "(recent_contacts s = pre @ e # post \<and> (\<forall>x \<in> set pre. \<not> same_contact n x)
            \<and> same_contact n e
           \<longrightarrow> recent_contacts (merge_contact obs s) = take 15 (pre @ overwrite n e # post))
       \<and> ((\<forall>x \<in> set (recent_contacts s). \<not> same_contact n x)
           \<longrightarrow> recent_contacts (merge_contact obs s) = take 15 (n # recent_contacts s))"
  using assms by (auto simp: merge_contact_def Let_def merge_existing_split merge_existing_none)

theorem merge_contact_upsert_witness:
  "obs_bob_again \<noteq> []
   \<and> \<not> is_owner (account_identity session_ann_bob) (normalize_contact Google obs_bob_again)
   \<and> recent_contacts session_ann_bob = [entry_ann] @ entry_bob # []
   \<and> \<not> same_contact (normalize_contact Google obs_bob_again) entry_ann
   \<and> same_contact (normalize_contact Google obs_bob_again) entry_bob
   \<and> recent_contacts (merge_contact obs_bob_again session_ann_bob)
       = [entry_ann, overwrite (normalize_contact Google obs_bob_again) entry_bob]"
proof -
  have st: "service_type session_ann_bob = Google" "account_identity session_ann_bob = \<lparr> a_email = [], a_display_name = [] \<rparr>"
    by (simp_all add: session_ann_bob_def merge_contact_def init_session_def Let_def split: option.splits)
  have h1: "obs_bob_again \<noteq> []" by (simp add: obs_bob_again_def)
  have h3: "\<not> is_owner (account_identity session_ann_bob) (normalize_contact Google obs_bob_again)"
    by (simp add: st obs_bob_again_def contact_eval)
  have a: "\<not> same_contact (normalize_contact Google obs_bob_again) entry_ann"
    by (simp add: obs_bob_again_def entry_ann_def contact_eval)
  have b: "same_contact (normalize_contact Google obs_bob_again) entry_bob"
    by (simp add: obs_bob_again_def entry_bob_def contact_eval)
  from merge_contact_upsert [of obs_bob_again "normalize_contact Google obs_bob_again"
      session_ann_bob "[entry_ann]" entry_bob "[]"] h1 h3 a b
  show ?thesis by (simp add: st session_ann_bob_contacts)
qed

text \<open>
  Claim C7 as the specification words it fails: Bob is observed, then Ann, then Bob again.
  The second observation of Bob updates his entry (the subject becomes \<open>Update\<close>), and
  the entry stays behind Ann's instead of moving to the front.
\<close>

theorem merge_contact_front_counterexample:
  "map c_email (recent_contacts (merge_contact obs_bob_again
        (merge_contact obs_ann (merge_contact obs_bob (init_session Google)))))
     = [''ann@x.com'', ''Bob@X.com'']
   \<and> map c_subject (recent_contacts (merge_contact obs_bob_again
        (merge_contact obs_ann (merge_contact obs_bob (init_session Google)))))
     = [''Lunch'', ''Update'']"
  by (simp add: obs_bob_def obs_ann_def obs_bob_again_def contact_eval)

section \<open>Marking a message read or unread\<close>

lemmas mark_defs = gmail_mark_as_read_def gmail_mark_as_unread_def outlook_mark_as_read_def
  outlook_mark_as_unread_def gmail_context_action_def remember_handled_email_def
  forget_handled_email_def discard_announced_def Let_def

lemma target_id_frame [simp]:
  "target_id mid (s\<lparr> handled_email_ids := h \<rparr>) = target_id mid s"
  "target_id mid (s\<lparr> announced_unread_ids := a \<rparr>) = target_id mid s"
  "target_id mid (s\<lparr> outbox := ob \<rparr>) = target_id mid s"
  "target_id mid (s\<lparr> recent_contacts := cs \<rparr>) = target_id mid s"
  "target_id mid (s\<lparr> account_identity := acc \<rparr>) = target_id mid s"
  by (simp_all add: target_id_def)

lemma gmail_mark_as_read_twice:
  "gmail_mark_as_read g mid (snd (gmail_mark_as_read g mid s)) = gmail_mark_as_read g mid s"
  by (simp add: mark_defs insert_absorb)

lemma outlook_mark_as_read_twice:
  "outlook_mark_as_read m mid (snd (outlook_mark_as_read m mid s)) = outlook_mark_as_read m mid s"
  by (simp add: mark_defs)

lemma mark_as_read_outbox:
  "outbox (snd (gmail_mark_as_read g mid s)) = outbox s"
  "outbox (snd (outlook_mark_as_read m mid s)) = outbox s"
  by (simp_all add: mark_defs)

lemma mark_as_read_contexts:
  "current_email_context (snd (gmail_mark_as_read g mid s)) = current_email_context s"
  "current_event_context (snd (gmail_mark_as_read g mid s)) = current_event_context s"
  "current_email_context (snd (outlook_mark_as_read m mid s)) = current_email_context s"
  "current_event_context (snd (outlook_mark_as_read m mid s)) = current_event_context s"
  by (simp_all add: mark_defs)

lemma mark_as_unread_contexts:
  "current_email_context (snd (gmail_mark_as_unread g mid s)) = current_email_context s"
  "current_event_context (snd (gmail_mark_as_unread g mid s)) = current_event_context s"
  "current_email_context (snd (outlook_mark_as_unread m mid s)) = current_email_context s"
  "current_event_context (snd (outlook_mark_as_unread m mid s)) = current_event_context s"
  by (simp_all add: mark_defs)

lemma mark_as_read_handled:
  "fst (gmail_mark_as_read g mid s) = Returned (Text ''Email marked as read.'')
     \<Longrightarrow> target_id mid s \<in> handled_email_ids (snd (gmail_mark_as_read g mid s))"
  "fst (outlook_mark_as_read m mid s) = Returned (Text ''Email marked as read.'')
     \<Longrightarrow> target_id mid s \<in> handled_email_ids (snd (outlook_mark_as_read m mid s))"
  by (auto simp add: mark_defs split: if_splits)

text \<open>
  Claim C8.  Marking a message read a second time, right after the first, gives the very
  result and the very session of the first call: the same return value (or the same
  exception), the same handled and announced sets, the same focus.  Neither call writes to
  the client, and after a call that reports success the message is in the handled set.
  The provider is the same for both calls.
\<close>

theorem mark_as_read_idempotent:
  "gmail_mark_as_read g mid (snd (gmail_mark_as_read g mid s)) = gmail_mark_as_read g mid s
   \<and> outlook_mark_as_read m mid (snd (outlook_mark_as_read m mid s)) = outlook_mark_as_read m mid s
   \<and> outbox (snd (gmail_mark_as_read g mid (snd (gmail_mark_as_read g mid s)))) = outbox s
   \<and> outbox (snd (outlook_mark_as_read m mid (snd (outlook_mark_as_read m mid s)))) = outbox s
   \<and> (fst (gmail_mark_as_read g mid s) = Returned (Text ''Email marked as read.'')
        \<longrightarrow> target_id mid s
             \<in> handled_email_ids (snd (gmail_mark_as_read g mid (snd (gmail_mark_as_read g mid s)))))
   \<and> (fst (outlook_mark_as_read m mid s) = Returned (Text ''Email marked as read.'')
        \<longrightarrow> target_id mid s
             \<in> handled_email_ids (snd (outlook_mark_as_read m mid (snd (outlook_mark_as_read m mid s)))))"
  by (simp add: gmail_mark_as_read_twice outlook_mark_as_read_twice mark_as_read_outbox
      mark_as_read_handled)

theorem mark_as_read_idempotent_witness:
  "fst (gmail_mark_as_read gmail_up ''m1'' (init_session Google))
      = Returned (Text ''Email marked as read.'')
   \<and> fst (outlook_mark_as_read graph_up ''m1'' (init_session Microsoft))
      = Returned (Text ''Email marked as read.'')
   \<and> ''m1'' \<in> handled_email_ids (snd (gmail_mark_as_read gmail_up ''m1''
                 (snd (gmail_mark_as_read gmail_up ''m1'' (init_session Google)))))
   \<and> ''m1'' \<in> handled_email_ids (snd (outlook_mark_as_read graph_up ''m1''
                 (snd (outlook_mark_as_read graph_up ''m1'' (init_session Microsoft)))))"
proof -
  have g: "fst (gmail_mark_as_read gmail_up ''m1'' (init_session Google))
      = Returned (Text ''Email marked as read.'')"
    by (simp add: mark_defs target_id_def por_def gmail_up_def init_session_def)
  have m: "fst (outlook_mark_as_read graph_up ''m1'' (init_session Microsoft))
      = Returned (Text ''Email marked as read.'')"
    by (simp add: mark_defs target_id_def por_def graph_up_def init_session_def)
  have t: "target_id ''m1'' (init_session Google) = ''m1''"
    "target_id ''m1'' (init_session Microsoft) = ''m1''"
    by (simp_all add: target_id_def por_def)
  from mark_as_read_idempotent [of gmail_up "''m1''" "init_session Google" graph_up, unfolded t]
    mark_as_read_idempotent [of gmail_up "''m1''" "init_session Microsoft" graph_up, unfolded t]
    g m
  show ?thesis by blast
qed

text \<open>
  Claim C10.  Marking a message read or unread, with an explicit id or with the id of the
  focused email, leaves \<^verbatim>\<open>current_email_context\<close> and \<^verbatim>\<open>current_event_context\<close> as they
  were, whether the request goes through or raises.
\<close>

theorem mark_keeps_focus:
  "current_email_context (snd (gmail_mark_as_read g mid s)) = current_email_context s
   \<and> current_event_context (snd (gmail_mark_as_read g mid s)) = current_event_context s
   \<and> current_email_context (snd (gmail_mark_as_unread g mid s)) = current_email_context s
   \<and> current_event_context (snd (gmail_mark_as_unread g mid s)) = current_event_context s
   \<and> current_email_context (snd (outlook_mark_as_read m mid s)) = current_email_context s
   \<and> current_event_context (snd (outlook_mark_as_read m mid s)) = current_event_context s
   \<and> current_email_context (snd (outlook_mark_as_unread m mid s)) = current_email_context s
   \<and> current_event_context (snd (outlook_mark_as_unread m mid s)) = current_event_context s"
  by (simp add: mark_as_read_contexts mark_as_unread_contexts)

theorem mark_keeps_focus_witness:
  "current_email_context (snd (gmail_mark_as_read gmail_up ''m1'' session_searched))
     = current_email_context session_searched
   \<and> current_email_context (snd (gmail_mark_as_unread gmail_up ''m1'' session_searched))
     = current_email_context session_searched
   \<and> current_event_context (snd (outlook_mark_as_read graph_up ''m1'' session_searched))
     = current_event_context session_searched
   \<and> current_event_context (snd (outlook_mark_as_unread graph_up ''m1'' session_searched))
     = current_event_context session_searched"
  using mark_keeps_focus [of gmail_up "''m1''" session_searched graph_up] by blast

section \<open>What each step leaves unchanged\<close>

lemma ws_send_frame [simp]:
  "service_type (ws_send x s) = service_type s"
  "last_draft_google (ws_send x s) = last_draft_google s"
  "last_draft_microsoft_id (ws_send x s) = last_draft_microsoft_id s"
  "current_email_context (ws_send x s) = current_email_context s"
  "current_event_context (ws_send x s) = current_event_context s"
  "recent_contacts (ws_send x s) = recent_contacts s"
  "account_identity (ws_send x s) = account_identity s"
  "handled_email_ids (ws_send x s) = handled_email_ids s"
  "announced_unread_ids (ws_send x s) = announced_unread_ids s"
  by (simp_all add: ws_send_def)

lemma merge_contact_frame [simp]:
  "service_type (merge_contact obs s) = service_type s"
  "last_draft_google (merge_contact obs s) = last_draft_google s"
  "last_draft_microsoft_id (merge_contact obs s) = last_draft_microsoft_id s"
  "current_email_context (merge_contact obs s) = current_email_context s"
  "current_event_context (merge_contact obs s) = current_event_context s"
  "account_identity (merge_contact obs s) = account_identity s"
  "handled_email_ids (merge_contact obs s) = handled_email_ids s"
  "announced_unread_ids (merge_contact obs s) = announced_unread_ids s"
  "outbox (merge_contact obs s) = outbox s"
  by (simp_all add: merge_contact_def Let_def split: option.splits)

lemma ensure_account_identity_frame [simp]:
  "service_type (ensure_account_identity g m s) = service_type s"
  "last_draft_google (ensure_account_identity g m s) = last_draft_google s"
  "last_draft_microsoft_id (ensure_account_identity g m s) = last_draft_microsoft_id s"
  "current_email_context (ensure_account_identity g m s) = current_email_context s"
  "current_event_context (ensure_account_identity g m s) = current_event_context s"
  "recent_contacts (ensure_account_identity g m s) = recent_contacts s"
  "handled_email_ids (ensure_account_identity g m s) = handled_email_ids s"
  "announced_unread_ids (ensure_account_identity g m s) = announced_unread_ids s"
  "outbox (ensure_account_identity g m s) = outbox s"
  by (simp_all add: ensure_account_identity_def Let_def split: option.splits service.splits prod.splits)

lemma mark_as_read_frame [simp]:
  "service_type (snd (gmail_mark_as_read g mid s)) = service_type s"
  "last_draft_google (snd (gmail_mark_as_read g mid s)) = last_draft_google s"
  "last_draft_microsoft_id (snd (gmail_mark_as_read g mid s)) = last_draft_microsoft_id s"
  "current_email_context (snd (gmail_mark_as_read g mid s)) = current_email_context s"
  "current_event_context (snd (gmail_mark_as_read g mid s)) = current_event_context s"
  "recent_contacts (snd (gmail_mark_as_read g mid s)) = recent_contacts s"
  "account_identity (snd (gmail_mark_as_read g mid s)) = account_identity s"
  "service_type (snd (outlook_mark_as_read m mid s)) = service_type s"
  "last_draft_google (snd (outlook_mark_as_read m mid s)) = last_draft_google s"
  "last_draft_microsoft_id (snd (outlook_mark_as_read m mid s)) = last_draft_microsoft_id s"
  "current_email_context (snd (outlook_mark_as_read m mid s)) = current_email_context s"
  "current_event_context (snd (outlook_mark_as_read m mid s)) = current_event_context s"
  "recent_contacts (snd (outlook_mark_as_read m mid s)) = recent_contacts s"
  "account_identity (snd (outlook_mark_as_read m mid s)) = account_identity s"
  by (simp_all add: mark_defs)

lemmas display_defs = update_context_display_def publish_people_list_def show_draft_def

section \<open>Reading a message\<close>

lemma load_gmail_None:
  "load_gmail_email_into_context g m mid mr s = (None, s') \<Longrightarrow> s' = s"
  by (auto simp: load_gmail_email_into_context_def Let_def split: option.splits if_splits)

lemma load_outlook_None:
  "load_outlook_email_into_context g m mid mr s = (None, s') \<Longrightarrow> s' = s"
  by (auto simp: load_outlook_email_into_context_def Let_def split: option.splits if_splits)

lemma load_gmail_Some:
  "g_connected g \<Longrightarrow> g_get g mid = Some msg \<Longrightarrow>
   fst (load_gmail_email_into_context g m mid mr s) = Some (gmail_context g msg, gm_body msg)
   \<and> current_email_context (snd (load_gmail_email_into_context g m mid mr s)) = Some (gmail_context g msg)
   \<and> current_event_context (snd (load_gmail_email_into_context g m mid mr s)) = None
   \<and> last_draft_google (snd (load_gmail_email_into_context g m mid mr s)) = last_draft_google s
   \<and> last_draft_microsoft_id (snd (load_gmail_email_into_context g m mid mr s)) = last_draft_microsoft_id s"
  by (simp add: load_gmail_email_into_context_def Let_def display_defs)

lemma load_outlook_Some:
  "m_get_message m mid = Some msg \<Longrightarrow>
   fst (load_outlook_email_into_context g m mid mr s) = Some (outlook_context mid msg, outlook_body msg)
   \<and> current_email_context (snd (load_outlook_email_into_context g m mid mr s)) = Some (outlook_context mid msg)
   \<and> current_event_context (snd (load_outlook_email_into_context g m mid mr s)) = None
   \<and> last_draft_google (snd (load_outlook_email_into_context g m mid mr s)) = last_draft_google s
   \<and> last_draft_microsoft_id (snd (load_outlook_email_into_context g m mid mr s)) = last_draft_microsoft_id s"
  by (simp add: load_outlook_email_into_context_def Let_def display_defs)

lemma e_id_gmail_context [simp]: "e_id (gmail_context g msg) = gm_id msg"
  by (simp add: e_id_def gmail_context_def dget_def Let_def)

lemma e_id_outlook_context [simp]:
  "e_id (outlook_context mid msg) = dget_default (om_fields msg) ''id'' mid"
  by (simp add: e_id_def outlook_context_def dget_def Let_def)

text \<open>
  Claim C1.  A read resolves its target \<open>X\<close> from the argument or from the focused email.
  When the provider answers the request for \<open>X\<close> with the message \<open>X\<close> (an Outlook
  answer may also come without an id), the read returns the message, the email focus is
  set to a context whose id is \<open>X\<close>, and the event context is cleared, so that only the
  email is in focus.
\<close>

theorem read_email_sets_focus:
  assumes "target_id mid s = X" and "X \<noteq> []"
  shows "(g_connected g \<and> g_get g X = Some msg \<and> gm_id msg = X \<longrightarrow>
            fst (gmail_read_email g m mid s) = Returned (read_result (gmail_context g msg) (gm_body msg))
            \<and> (\<exists>c. current_email_context (snd (gmail_read_email g m mid s)) = Some c \<and> e_id c = X)
            \<and> current_event_context (snd (gmail_read_email g m mid s)) = None)
       \<and> (m_get_message m X = Some omsg \<and> dget_default (om_fields omsg) ''id'' X = X \<longrightarrow>
            fst (outlook_read_email g m mid s)
              = Returned (read_result (outlook_context X omsg) (outlook_body omsg))
            \<and> (\<exists>c. current_email_context (snd (outlook_read_email g m mid s)) = Some c \<and> e_id c = X)
            \<and> current_event_context (snd (outlook_read_email g m mid s)) = None)"
proof (intro conjI impI)
  assume a: "g_connected g \<and> g_get g X = Some msg \<and> gm_id msg = X"
  then have l: "fst (load_gmail_email_into_context g m X True s) = Some (gmail_context g msg, gm_body msg)"
    "current_email_context (snd (load_gmail_email_into_context g m X True s)) = Some (gmail_context g msg)"
    "current_event_context (snd (load_gmail_email_into_context g m X True s)) = None"
    using load_gmail_Some [of g X msg m True s] by simp_all
  obtain r s' where rs: "load_gmail_email_into_context g m X True s = (r, s')" by fastforce
  with l have r: "r = Some (gmail_context g msg, gm_body msg)"
    "current_email_context s' = Some (gmail_context g msg)" "current_event_context s' = None" by simp_all
  show "fst (gmail_read_email g m mid s) = Returned (read_result (gmail_context g msg) (gm_body msg))"
    using assms rs r by (simp add: gmail_read_email_def)
  show "\<exists>c. current_email_context (snd (gmail_read_email g m mid s)) = Some c \<and> e_id c = X"
    using assms rs r a by (simp add: gmail_read_email_def)
  show "current_event_context (snd (gmail_read_email g m mid s)) = None"
    using assms rs r by (simp add: gmail_read_email_def)
next
  assume a: "m_get_message m X = Some omsg \<and> dget_default (om_fields omsg) ''id'' X = X"
  then have l: "fst (load_outlook_email_into_context g m X True s) = Some (outlook_context X omsg, outlook_body omsg)"
    "current_email_context (snd (load_outlook_email_into_context g m X True s)) = Some (outlook_context X omsg)"
    "current_event_context (snd (load_outlook_email_into_context g m X True s)) = None"
    using load_outlook_Some [of m X omsg g True s] by simp_all
  obtain r s' where rs: "load_outlook_email_into_context g m X True s = (r, s')" by fastforce
  with l have r: "r = Some (outlook_context X omsg, outlook_body omsg)"
    "current_email_context s' = Some (outlook_context X omsg)" "current_event_context s' = None" by simp_all
  show "fst (outlook_read_email g m mid s) = Returned (read_result (outlook_context X omsg) (outlook_body omsg))"
    using assms rs r by (simp add: outlook_read_email_def)
  show "\<exists>c. current_email_context (snd (outlook_read_email g m mid s)) = Some c \<and> e_id c = X"
    using assms rs r a by (simp add: outlook_read_email_def)
  show "current_event_context (snd (outlook_read_email g m mid s)) = None"
    using assms rs r by (simp add: outlook_read_email_def)
qed

theorem read_email_sets_focus_witness:
  "target_id ''m1'' (init_session Google) = ''m1'' \<and> ''m1'' \<noteq> []
   \<and> g_connected gmail_up \<and> g_get gmail_up ''m1'' = Some msg_bob \<and> gm_id msg_bob = ''m1''
   \<and> (\<exists>c. current_email_context (snd (gmail_read_email gmail_up graph_up ''m1''
                (init_session Google))) = Some c \<and> e_id c = ''m1'')
   \<and> current_event_context (snd (gmail_read_email gmail_up graph_up ''m1''
                (init_session Google))) = None
   \<and> m_get_message graph_up ''m1'' = Some omsg_bob
   \<and> dget_default (om_fields omsg_bob) ''id'' ''m1'' = ''m1''
   \<and> (\<exists>c. current_email_context (snd (outlook_read_email gmail_up graph_up ''m1''
                (init_session Google))) = Some c \<and> e_id c = ''m1'')
   \<and> current_event_context (snd (outlook_read_email gmail_up graph_up ''m1''
                (init_session Google))) = None"
proof -
  have t: "target_id ''m1'' (init_session Google) = ''m1''" "''m1'' \<noteq> []"
    by (simp_all add: target_id_def por_def)
  have g: "g_connected gmail_up \<and> g_get gmail_up ''m1'' = Some msg_bob \<and> gm_id msg_bob = ''m1''"
    by (simp add: gmail_up_def msg_bob_def)
  have o: "m_get_message graph_up ''m1'' = Some omsg_bob
           \<and> dget_default (om_fields omsg_bob) ''id'' ''m1'' = ''m1''"
    by (simp add: graph_up_def omsg_bob_def dget_default_def)
  from read_email_sets_focus [OF t, of gmail_up msg_bob graph_up omsg_bob] t g o
  show ?thesis by blast
qed

section \<open>Sending and cancelling without a draft\<close>

lemma clear_draft_without_draft:
  "last_draft_google s = None \<Longrightarrow> last_draft_microsoft_id s = None
   \<Longrightarrow> clear_draft s = ws_send DraftClear s"
  by (cases s) (simp add: clear_draft_def)

text \<open>
  Claim C3, as the source has it.  Without a pending draft, \<^verbatim>\<open>gmail_send_draft\<close> and
  \<^verbatim>\<open>outlook_send_draft\<close> return the text \<open>Error: No draft to send.\<close> and leave the
  session as it was.  \<^verbatim>\<open>clear_draft\<close>, the function that drops a draft, has no error:
  without a pending draft it leaves both slots empty and sends one \<^verbatim>\<open>draft_clear\<close> to the
  client.  (The client's \<^verbatim>\<open>cancel_draft\<close> action calls \<^verbatim>\<open>clear_draft\<close> and then hands the
  sentence \<open>Cancel the draft.\<close> to the assistant as a user message; that turn of the
  assistant is not part of this statement.)
\<close>

theorem send_without_draft:
  "(last_draft_google s = None \<longrightarrow>
      gmail_send_draft g s = (Returned (Text ''Error: No draft to send.''), s))
   \<and> (last_draft_microsoft_id s = None \<or> last_draft_microsoft_id s = Some [] \<longrightarrow>
      outlook_send_draft m s = (Returned (Text ''Error: No draft to send.''), s))
   \<and> (last_draft_google s = None \<and> last_draft_microsoft_id s = None \<longrightarrow>
      clear_draft s = ws_send DraftClear s)"
  by (auto simp: gmail_send_draft_def outlook_send_draft_def clear_draft_without_draft)

theorem send_without_draft_witness:
  "last_draft_google (init_session Google) = None
   \<and> last_draft_microsoft_id (init_session Google) = None
   \<and> gmail_send_draft gmail_up (init_session Google)
       = (Returned (Text ''Error: No draft to send.''), init_session Google)
   \<and> outlook_send_draft graph_up (init_session Google)
       = (Returned (Text ''Error: No draft to send.''), init_session Google)
   \<and> clear_draft (init_session Google) = ws_send DraftClear (init_session Google)"
proof -
  have n: "last_draft_google (init_session Google) = None"
    "last_draft_microsoft_id (init_session Google) = None"
    by (simp_all add: init_session_def)
  from send_without_draft [of "init_session Google" gmail_up graph_up] n
  show ?thesis by blast
qed

text \<open>
  Claim C3 as the specification words it fails for cancel: in a new session, which has no
  draft, \<^verbatim>\<open>clear_draft\<close> ends without any error; the session it leaves differs from the one
  before only by the \<^verbatim>\<open>draft_clear\<close> message in the outbox.
\<close>

theorem cancel_without_draft_counterexample:
  "clear_draft (init_session Google) = (init_session Google)\<lparr> outbox := [DraftClear] \<rparr>"
  by (simp add: clear_draft_def ws_send_def init_session_def)

section \<open>Drafts: the last one wins\<close>

lemma load_drafts [simp]:
  "last_draft_google (snd (load_gmail_email_into_context g m mid mr s)) = last_draft_google s"
  "last_draft_microsoft_id (snd (load_gmail_email_into_context g m mid mr s)) = last_draft_microsoft_id s"
  "last_draft_google (snd (load_outlook_email_into_context g m mid mr s)) = last_draft_google s"
  "last_draft_microsoft_id (snd (load_outlook_email_into_context g m mid mr s)) = last_draft_microsoft_id s"
  by (simp_all add: load_gmail_email_into_context_def load_outlook_email_into_context_def Let_def
      display_defs split: option.splits)

lemma snd_load_case:
  "snd (case p of (None, s') \<Rightarrow> (False, s') | (Some l, s') \<Rightarrow> (True, s')) = snd p"
  by (cases p) (auto split: option.splits)

lemma ensure_email_context_shape:
  "snd (ensure_email_context g m mid mr s) = s
   \<or> (\<exists>i. snd (ensure_email_context g m mid mr s) = snd (gmail_mark_as_read g i s))
   \<or> (\<exists>i. snd (ensure_email_context g m mid mr s) = snd (outlook_mark_as_read m i s))
   \<or> (\<exists>i. snd (ensure_email_context g m mid mr s) = snd (load_gmail_email_into_context g m i mr s))
   \<or> (\<exists>i. snd (ensure_email_context g m mid mr s) = snd (load_outlook_email_into_context g m i mr s))"
proof (cases "case current_email_context s of
                Some c \<Rightarrow> if mid = [] \<or> e_id c = mid then Some c else None | None \<Rightarrow> None")
  case (Some c)
  then show ?thesis
    by (cases "service_type s") (auto simp: ensure_email_context_def)
next
  case None
  then show ?thesis
    by (cases "service_type s") (auto simp: ensure_email_context_def Let_def snd_load_case)
qed

lemma ensure_email_context_False:
  "ensure_email_context g m mid mr s = (False, s') \<Longrightarrow> s' = s"
proof (cases "case current_email_context s of
                Some c \<Rightarrow> if mid = [] \<or> e_id c = mid then Some c else None | None \<Rightarrow> None")
  case (Some c)
  assume "ensure_email_context g m mid mr s = (False, s')"
  with Some show ?thesis by (simp add: ensure_email_context_def)
next
  case None
  assume a: "ensure_email_context g m mid mr s = (False, s')"
  define t where "t = por (por mid (first_contact_id (\<lambda>i. \<not> is_handled_email s i) s))
                        (first_contact_id (\<lambda>i. True) s)"
  show ?thesis
  proof (cases "t = []")
    case True
    with a None show ?thesis by (simp add: ensure_email_context_def Let_def t_def)
  next
    case False
    show ?thesis
    proof (cases "service_type s")
      case Google
      obtain r s1 where l: "load_gmail_email_into_context g m t mr s = (r, s1)" by fastforce
      with a None False Google have "r = None \<and> s1 = s'"
        by (cases r) (auto simp: ensure_email_context_def Let_def t_def)
      with l show ?thesis using load_gmail_None by blast
    next
      case Microsoft
      obtain r s1 where l: "load_outlook_email_into_context g m t mr s = (r, s1)" by fastforce
      with a None False Microsoft have "r = None \<and> s1 = s'"
        by (cases r) (auto simp: ensure_email_context_def Let_def t_def)
      with l show ?thesis using load_outlook_None by blast
    qed
  qed
qed

lemma ensure_email_context_drafts [simp]:
  "last_draft_google (snd (ensure_email_context g m mid mr s)) = last_draft_google s"
  "last_draft_microsoft_id (snd (ensure_email_context g m mid mr s)) = last_draft_microsoft_id s"
  using ensure_email_context_shape [of g m mid mr s] by auto



lemma gmail_draft_reply_other [simp]:
  "last_draft_microsoft_id (snd (gmail_draft_reply g m b s)) = last_draft_microsoft_id s"
proof -
  obtain ok s' where e: "ensure_email_context g m [] True s = (ok, s')" by fastforce
  have "last_draft_microsoft_id s' = last_draft_microsoft_id s"
    using ensure_email_context_drafts(2) [of g m "[]" True s] e by simp
  then show ?thesis using e
    by (cases ok; cases "current_email_context s'")
       (simp_all add: gmail_draft_reply_def Let_def display_defs)
qed


lemma outlook_draft_new_other [simp]:
  "last_draft_google (snd (outlook_draft_new_email m to su b s)) = last_draft_google s"
  by (cases "m_create_message m su b (split_recipients to)")
     (simp_all add: outlook_draft_new_email_def Let_def display_defs)


lemma outlook_draft_reply_other [simp]:
  "last_draft_google (snd (outlook_draft_reply g m b s)) = last_draft_google s"
proof -
  obtain ok s' where e: "ensure_email_context g m [] True s = (ok, s')" by fastforce
  have "last_draft_google s' = last_draft_google s"
    using ensure_email_context_drafts(1) [of g m "[]" True s] e by simp
  then show ?thesis using e
    by (cases ok; cases "current_email_context s'"; cases "m_create_reply m (e_id (the (current_email_context s'))) b")
       (simp_all add: outlook_draft_reply_def Let_def display_defs)
qed














section \<open>Replying without a focused email\<close>

lemma first_contact_id_none:
  assumes "first_contact_id (\<lambda>i. True) s = []"
  shows "first_contact_id ok s = []"
proof -
  let ?P = "\<lambda>c. c_service c = service_name (service_type s) \<and> c_id c \<noteq> [] \<and> True"
  have "filter ?P (recent_contacts s) = []"
  proof (cases "filter ?P (recent_contacts s)")
    case Nil
    then show ?thesis .
  next
    case (Cons c cs)
    then have "c \<in> set (filter ?P (recent_contacts s))" by simp
    then have "c_id c \<noteq> []" by simp
    moreover from assms Cons have "c_id c = []" by (simp add: first_contact_id_def)
    ultimately show ?thesis by simp
  qed
  then have "filter (\<lambda>c. c_service c = service_name (service_type s) \<and> c_id c \<noteq> [] \<and> ok (c_id c))
               (recent_contacts s) = []"
    by (auto simp: filter_empty_conv)
  then show ?thesis by (simp add: first_contact_id_def)
qed

lemma ensure_email_context_fallback:
  assumes "current_email_context s = None"
    and "t = por (first_contact_id (\<lambda>i. \<not> is_handled_email s i) s) (first_contact_id (\<lambda>i. True) s)"
    and "t \<noteq> []"
  shows "ensure_email_context g m [] True s
           = (case (case service_type s of
                      Google \<Rightarrow> load_gmail_email_into_context g m t True s
                    | Microsoft \<Rightarrow> load_outlook_email_into_context g m t True s) of
                (None, s') \<Rightarrow> (False, s')
              | (Some loaded, s') \<Rightarrow> (True, s'))"
  using assms(1,3) unfolding assms(2)
  by (cases "first_contact_id (\<lambda>i. \<not> is_handled_email s i) s = []"; cases "service_type s")
     (simp_all add: ensure_email_context_def Let_def por_def)

lemma load_gmail_fails:
  "\<not> g_connected g \<or> g_get g t = None \<Longrightarrow> load_gmail_email_into_context g m t mr s = (None, s)"
  by (auto simp: load_gmail_email_into_context_def)

lemma load_outlook_fails:
  "m_get_message m t = None \<Longrightarrow> load_outlook_email_into_context g m t mr s = (None, s)"
  by (simp add: load_outlook_email_into_context_def)

lemma gmail_draft_reply_fallback:
  assumes "current_email_context s = None"
    and "t = por (first_contact_id (\<lambda>i. \<not> is_handled_email s i) s) (first_contact_id (\<lambda>i. True) s)"
    and "t \<noteq> []" and "service_type s = Google"
    and "g_connected g" and "g_get g t = Some msg"
  shows "fst (gmail_draft_reply g m body s) = Returned (Text ''Reply draft created.'')"
    and "current_email_context (snd (gmail_draft_reply g m body s)) = Some (gmail_context g msg)"
    and "last_draft_google (snd (gmail_draft_reply g m body s))
           = Some (reply_draft (gmail_context g msg) body)"
proof -
  obtain r s1 where l: "load_gmail_email_into_context g m t True s = (r, s1)" by fastforce
  with load_gmail_Some [OF assms(5,6), of m True s]
  have r: "r = Some (gmail_context g msg, gm_body msg)"
    "current_email_context s1 = Some (gmail_context g msg)" by simp_all
  from ensure_email_context_fallback [OF assms(1-3), of g m] assms(4) l r
  have e: "ensure_email_context g m [] True s = (True, s1)" by simp
  from e r show "fst (gmail_draft_reply g m body s) = Returned (Text ''Reply draft created.'')"
    by (simp add: gmail_draft_reply_def Let_def)
  from e r show "current_email_context (snd (gmail_draft_reply g m body s)) = Some (gmail_context g msg)"
    by (simp add: gmail_draft_reply_def Let_def display_defs)
  from e r show "last_draft_google (snd (gmail_draft_reply g m body s))
           = Some (reply_draft (gmail_context g msg) body)"
    by (simp add: gmail_draft_reply_def Let_def display_defs)
qed

lemma outlook_draft_reply_fallback:
  assumes "current_email_context s = None"
    and "t = por (first_contact_id (\<lambda>i. \<not> is_handled_email s i) s) (first_contact_id (\<lambda>i. True) s)"
    and "t \<noteq> []" and "service_type s = Microsoft"
    and "m_get_message m t = Some omsg"
    and "m_create_reply m (e_id (outlook_context t omsg)) body = Some answer"
    and "od_id (found_reply_draft m answer) \<noteq> []"
  shows "fst (outlook_draft_reply g m body s) = Returned (Text ''Reply draft created.'')"
    and "current_email_context (snd (outlook_draft_reply g m body s)) = Some (outlook_context t omsg)"
    and "last_draft_microsoft_id (snd (outlook_draft_reply g m body s))
           = Some (od_id (found_reply_draft m answer))"
proof -
  obtain r s1 where l: "load_outlook_email_into_context g m t True s = (r, s1)" by fastforce
  with load_outlook_Some [OF assms(5), of g True s]
  have r: "r = Some (outlook_context t omsg, outlook_body omsg)"
    "current_email_context s1 = Some (outlook_context t omsg)" by simp_all
  from ensure_email_context_fallback [OF assms(1-3), of g m] assms(4) l r
  have e: "ensure_email_context g m [] True s = (True, s1)" by simp
  from e r assms(6,7)
  show "fst (outlook_draft_reply g m body s) = Returned (Text ''Reply draft created.'')"
    by (simp add: outlook_draft_reply_def Let_def)
  from e r assms(6,7)
  show "current_email_context (snd (outlook_draft_reply g m body s)) = Some (outlook_context t omsg)"
    by (simp add: outlook_draft_reply_def Let_def display_defs)
  from e r assms(6,7)
  show "last_draft_microsoft_id (snd (outlook_draft_reply g m body s))
           = Some (od_id (found_reply_draft m answer))"
    by (simp add: outlook_draft_reply_def Let_def display_defs)
qed

text \<open>
  Claim C5, as the source has it.  When \<^verbatim>\<open>gmail_draft_reply\<close> or \<^verbatim>\<open>outlook_draft_reply\<close>
  returns \<open>Error: No email context to reply to.\<close>, the session is exactly as before: no
  draft, no other change.  With no email in focus the call looks for a target \<open>t\<close> in the
  recent contacts of the session's service: the message id of the first contact that is not
  handled, else that of the first contact with an id.  Without a target, and with a target
  whose message cannot be loaded, the call returns the error.  With a target whose message
  loads, the call puts that message into the focus and creates the reply draft for it.
\<close>

theorem draft_reply_no_context:
  assumes "t = por (first_contact_id (\<lambda>i. \<not> is_handled_email s i) s) (first_contact_id (\<lambda>i. True) s)"
  shows
  "(fst (gmail_draft_reply g m body s) = Returned (Text ''Error: No email context to reply to.'')
      \<longrightarrow> snd (gmail_draft_reply g m body s) = s)
   \<and> (fst (outlook_draft_reply g m body s) = Returned (Text ''Error: No email context to reply to.'')
      \<longrightarrow> snd (outlook_draft_reply g m body s) = s)
   \<and> (current_email_context s = None \<and> first_contact_id (\<lambda>i. True) s = []
      \<longrightarrow> t = []
          \<and> gmail_draft_reply g m body s
            = (Returned (Text ''Error: No email context to reply to.''), s)
          \<and> outlook_draft_reply g m body s
            = (Returned (Text ''Error: No email context to reply to.''), s))
   \<and> (current_email_context s = None \<and> t \<noteq> [] \<and> service_type s = Google
        \<and> (\<not> g_connected g \<or> g_get g t = None)
      \<longrightarrow> gmail_draft_reply g m body s
            = (Returned (Text ''Error: No email context to reply to.''), s))
   \<and> (current_email_context s = None \<and> t \<noteq> [] \<and> service_type s = Google
        \<and> g_connected g \<and> g_get g t = Some msg
      \<longrightarrow> fst (gmail_draft_reply g m body s) = Returned (Text ''Reply draft created.'')
          \<and> current_email_context (snd (gmail_draft_reply g m body s)) = Some (gmail_context g msg)
          \<and> last_draft_google (snd (gmail_draft_reply g m body s))
              = Some (reply_draft (gmail_context g msg) body))
   \<and> (current_email_context s = None \<and> t \<noteq> [] \<and> service_type s = Microsoft
        \<and> m_get_message m t = None
      \<longrightarrow> outlook_draft_reply g m body s
            = (Returned (Text ''Error: No email context to reply to.''), s))
   \<and> (current_email_context s = None \<and> t \<noteq> [] \<and> service_type s = Microsoft
        \<and> m_get_message m t = Some omsg
        \<and> m_create_reply m (e_id (outlook_context t omsg)) body = Some answer
        \<and> od_id (found_reply_draft m answer) \<noteq> []
      \<longrightarrow> fst (outlook_draft_reply g m body s) = Returned (Text ''Reply draft created.'')
          \<and> current_email_context (snd (outlook_draft_reply g m body s))
              = Some (outlook_context t omsg)
          \<and> last_draft_microsoft_id (snd (outlook_draft_reply g m body s))
              = Some (od_id (found_reply_draft m answer)))"
proof -
  obtain ok s' where e: "ensure_email_context g m [] True s = (ok, s')" by fastforce
  have 1: "snd (gmail_draft_reply g m body s) = s"
    if a: "fst (gmail_draft_reply g m body s) = Returned (Text ''Error: No email context to reply to.'')"
  proof -
    from a e have nok: "\<not> ok"
      by (cases ok; cases "current_email_context s'")
         (simp_all add: gmail_draft_reply_def Let_def)
    with e have "s' = s" using ensure_email_context_False by simp
    with e nok show ?thesis by (simp add: gmail_draft_reply_def)
  qed
  have 2: "snd (outlook_draft_reply g m body s) = s"
    if a: "fst (outlook_draft_reply g m body s) = Returned (Text ''Error: No email context to reply to.'')"
  proof -
    from a e have nok: "\<not> ok"
      by (cases ok; cases "current_email_context s'";
          cases "m_create_reply m (e_id (the (current_email_context s'))) body")
         (simp_all add: outlook_draft_reply_def Let_def split: if_splits)
    with e have "s' = s" using ensure_email_context_False by simp
    with e nok show ?thesis by (simp add: outlook_draft_reply_def)
  qed
  have 3: "t = []
          \<and> gmail_draft_reply g m body s = (Returned (Text ''Error: No email context to reply to.''), s)
          \<and> outlook_draft_reply g m body s
            = (Returned (Text ''Error: No email context to reply to.''), s)"
    if a: "current_email_context s = None \<and> first_contact_id (\<lambda>i. True) s = []"
  proof -
    from a have f: "first_contact_id (\<lambda>i. \<not> is_handled_email s i) s = []"
      using first_contact_id_none by blast
    with a assms have t: "t = []" by (simp add: por_def)
    from a f have "ensure_email_context g m [] True s = (False, s)"
      by (simp add: ensure_email_context_def Let_def por_def)
    with t show ?thesis by (simp add: gmail_draft_reply_def outlook_draft_reply_def)
  qed
  have 4: "gmail_draft_reply g m body s = (Returned (Text ''Error: No email context to reply to.''), s)"
    if a: "current_email_context s = None \<and> t \<noteq> [] \<and> service_type s = Google
        \<and> (\<not> g_connected g \<or> g_get g t = None)"
  proof -
    from a have "load_gmail_email_into_context g m t True s = (None, s)"
      using load_gmail_fails by blast
    with a ensure_email_context_fallback [OF _ assms, of g m]
    have "ensure_email_context g m [] True s = (False, s)" by simp
    then show ?thesis by (simp add: gmail_draft_reply_def)
  qed
  have 5: "outlook_draft_reply g m body s = (Returned (Text ''Error: No email context to reply to.''), s)"
    if a: "current_email_context s = None \<and> t \<noteq> [] \<and> service_type s = Microsoft
        \<and> m_get_message m t = None"
  proof -
    from a have "load_outlook_email_into_context g m t True s = (None, s)"
      using load_outlook_fails by blast
    with a ensure_email_context_fallback [OF _ assms, of g m]
    have "ensure_email_context g m [] True s = (False, s)" by simp
    then show ?thesis by (simp add: outlook_draft_reply_def)
  qed
  from 1 2 3 4 5 gmail_draft_reply_fallback [OF _ assms, of g msg m body]
    outlook_draft_reply_fallback [OF _ assms, of m omsg body answer g]
  show ?thesis by blast
qed

theorem draft_reply_no_context_witness:
  "[] = por (first_contact_id (\<lambda>i. \<not> is_handled_email (init_session Google) i) (init_session Google))
           (first_contact_id (\<lambda>i. True) (init_session Google))
   \<and> current_email_context (init_session Google) = None
   \<and> first_contact_id (\<lambda>i. True) (init_session Google) = []
   \<and> gmail_draft_reply gmail_up graph_up ''On my way'' (init_session Google)
       = (Returned (Text ''Error: No email context to reply to.''), init_session Google)
   \<and> outlook_draft_reply gmail_up graph_up ''On my way'' (init_session Google)
       = (Returned (Text ''Error: No email context to reply to.''), init_session Google)
   \<and> snd (gmail_draft_reply gmail_up graph_up ''On my way'' (init_session Google))
       = init_session Google
   \<and> ''m2'' = por (first_contact_id (\<lambda>i. \<not> is_handled_email session_searched i) session_searched)
                (first_contact_id (\<lambda>i. True) session_searched)
   \<and> current_email_context session_searched = None \<and> service_type session_searched = Google
   \<and> g_get gmail_down ''m2'' = None
   \<and> gmail_draft_reply gmail_down graph_up ''On my way'' session_searched
       = (Returned (Text ''Error: No email context to reply to.''), session_searched)
   \<and> g_connected gmail_up \<and> g_get gmail_up ''m2'' = Some msg_ann
   \<and> fst (gmail_draft_reply gmail_up graph_up ''On my way'' session_searched)
       = Returned (Text ''Reply draft created.'')
   \<and> current_email_context (snd (gmail_draft_reply gmail_up graph_up ''On my way'' session_searched))
       = Some (gmail_context gmail_up msg_ann)
   \<and> last_draft_google (snd (gmail_draft_reply gmail_up graph_up ''On my way'' session_searched))
       = Some (reply_draft (gmail_context gmail_up msg_ann) ''On my way'')
   \<and> ''m2'' = por (first_contact_id (\<lambda>i. \<not> is_handled_email session_searched_outlook i)
                   session_searched_outlook)
                (first_contact_id (\<lambda>i. True) session_searched_outlook)
   \<and> current_email_context session_searched_outlook = None
   \<and> service_type session_searched_outlook = Microsoft
   \<and> m_get_message graph_down ''m2'' = None
   \<and> outlook_draft_reply gmail_up graph_down ''On my way'' session_searched_outlook
       = (Returned (Text ''Error: No email context to reply to.''), session_searched_outlook)
   \<and> m_get_message graph_up ''m2'' = Some omsg_ann
   \<and> fst (outlook_draft_reply gmail_up graph_up ''On my way'' session_searched_outlook)
       = Returned (Text ''Reply draft created.'')
   \<and> current_email_context (snd (outlook_draft_reply gmail_up graph_up ''On my way''
         session_searched_outlook))
       = Some (outlook_context ''m2'' omsg_ann)
   \<and> last_draft_microsoft_id (snd (outlook_draft_reply gmail_up graph_up ''On my way''
         session_searched_outlook))
       = Some ''d2''"
proof -
  have t0: "[] = por (first_contact_id (\<lambda>i. \<not> is_handled_email (init_session Google) i)
                       (init_session Google))
                    (first_contact_id (\<lambda>i. True) (init_session Google))"
    by (simp add: init_session_def first_contact_id_def por_def)
  have h: "current_email_context (init_session Google) = None
           \<and> first_contact_id (\<lambda>i. True) (init_session Google) = []"
    by (simp add: init_session_def first_contact_id_def)
  from draft_reply_no_context [OF t0, of gmail_up graph_up "''On my way''"] h
  have 1: "gmail_draft_reply gmail_up graph_up ''On my way'' (init_session Google)
       = (Returned (Text ''Error: No email context to reply to.''), init_session Google)
   \<and> outlook_draft_reply gmail_up graph_up ''On my way'' (init_session Google)
       = (Returned (Text ''Error: No email context to reply to.''), init_session Google)"
    by blast
  then have s1: "snd (gmail_draft_reply gmail_up graph_up ''On my way'' (init_session Google))
       = init_session Google"
    by simp
  have tg: "''m2'' = por (first_contact_id (\<lambda>i. \<not> is_handled_email session_searched i) session_searched)
                (first_contact_id (\<lambda>i. True) session_searched)"
    by code_simp
  have sg: "current_email_context session_searched = None \<and> service_type session_searched = Google"
    by code_simp
  have gd: "g_get gmail_down ''m2'' = None" by (simp add: gmail_down_def)
  have gu: "g_connected gmail_up \<and> g_get gmail_up ''m2'' = Some msg_ann"
    by (simp add: gmail_up_def)
  have ne: "''m2'' \<noteq> []" by simp
  from draft_reply_no_context [OF tg, of gmail_down graph_up "''On my way''"] sg gd ne
  have 2: "gmail_draft_reply gmail_down graph_up ''On my way'' session_searched
       = (Returned (Text ''Error: No email context to reply to.''), session_searched)"
    by blast
  from draft_reply_no_context [OF tg, of gmail_up graph_up "''On my way''" msg_ann] sg gu ne
  have 3: "fst (gmail_draft_reply gmail_up graph_up ''On my way'' session_searched)
       = Returned (Text ''Reply draft created.'')
   \<and> current_email_context (snd (gmail_draft_reply gmail_up graph_up ''On my way'' session_searched))
       = Some (gmail_context gmail_up msg_ann)
   \<and> last_draft_google (snd (gmail_draft_reply gmail_up graph_up ''On my way'' session_searched))
       = Some (reply_draft (gmail_context gmail_up msg_ann) ''On my way'')"
    by blast
  have to: "''m2'' = por (first_contact_id (\<lambda>i. \<not> is_handled_email session_searched_outlook i)
                   session_searched_outlook)
                (first_contact_id (\<lambda>i. True) session_searched_outlook)"
    by code_simp
  have so: "current_email_context session_searched_outlook = None
            \<and> service_type session_searched_outlook = Microsoft"
    by code_simp
  have od: "m_get_message graph_down ''m2'' = None" by (simp add: graph_down_def)
  have ou: "m_get_message graph_up ''m2'' = Some omsg_ann" by (simp add: graph_up_def)
  let ?answer = "\<lparr> od_id = ''d2'', od_subject = Some ''RE: Hello'',
                    od_toRecipients = [Some ''bob@x.com''] \<rparr>"
  have cr: "m_create_reply graph_up (e_id (outlook_context ''m2'' omsg_ann)) ''On my way'' = Some ?answer"
    by (simp add: graph_up_def)
  have fr: "found_reply_draft graph_up ?answer = ?answer"
    by (simp add: found_reply_draft_def)
  then have fi: "od_id (found_reply_draft graph_up ?answer) \<noteq> []" by simp
  from draft_reply_no_context [OF to, of gmail_up graph_down "''On my way''"] so od ne
  have 4: "outlook_draft_reply gmail_up graph_down ''On my way'' session_searched_outlook
       = (Returned (Text ''Error: No email context to reply to.''), session_searched_outlook)"
    by blast
  from draft_reply_no_context [OF to, of gmail_up graph_up "''On my way''" _ omsg_ann ?answer]
    so ou cr fi ne
  have "fst (outlook_draft_reply gmail_up graph_up ''On my way'' session_searched_outlook)
       = Returned (Text ''Reply draft created.'')
   \<and> current_email_context (snd (outlook_draft_reply gmail_up graph_up ''On my way''
         session_searched_outlook))
       = Some (outlook_context ''m2'' omsg_ann)
   \<and> last_draft_microsoft_id (snd (outlook_draft_reply gmail_up graph_up ''On my way''
         session_searched_outlook))
       = Some (od_id (found_reply_draft graph_up ?answer))"
    by blast
  then have 5: "fst (outlook_draft_reply gmail_up graph_up ''On my way'' session_searched_outlook)
       = Returned (Text ''Reply draft created.'')
   \<and> current_email_context (snd (outlook_draft_reply gmail_up graph_up ''On my way''
         session_searched_outlook))
       = Some (outlook_context ''m2'' omsg_ann)
   \<and> last_draft_microsoft_id (snd (outlook_draft_reply gmail_up graph_up ''On my way''
         session_searched_outlook))
       = Some ''d2''"
    unfolding fr by simp
  from t0 h 1 s1 tg sg gd 2 gu 3 to so od 4 ou 5 show ?thesis by blast
qed

text \<open>
  Claim C5 as the specification words it fails: after a search that found Bob and Ann, and
  with no message read and no email in focus, \<^verbatim>\<open>gmail_draft_reply\<close> does not answer
  \<open>NoContext\<close>: it takes the first recent contact, loads that message into the focus, and
  creates the reply draft.
\<close>

theorem draft_reply_fallback_counterexample:
  "fst (gmail_search_emails gmail_up graph_up [] 5 True (init_session Google))
       = Returned (EmailList [gmail_search_contact gmail_up Google ''m1'' msg_bob,
                              gmail_search_contact gmail_up Google ''m2'' msg_ann])
   \<and> current_email_context session_searched = None
   \<and> fst (gmail_draft_reply gmail_up graph_up ''On my way'' session_searched)
       = Returned (Text ''Reply draft created.'')
   \<and> last_draft_google (snd (gmail_draft_reply gmail_up graph_up ''On my way'' session_searched))
       = Some \<lparr> d_to = ''Ann <ann@x.com>'', d_subject = ''Re: Lunch'', d_body = ''On my way'' \<rparr>"
  by code_simp

section \<open>Searching skips handled messages\<close>

lemma search_contact_id [simp]:
  "dget (gmail_search_contact g sv i meta) ''id'' = i"
  "dget (outlook_search_contact sv msg) ''id'' = dget (om_fields msg) ''id''"
  by (simp_all add: gmail_search_contact_def outlook_search_contact_def dget_def Let_def)

lemma publish_contact_handled [simp]:
  "handled_email_ids (publish_contact publish contact s) = handled_email_ids s"
  "service_type (publish_contact publish contact s) = service_type s"
  by (simp_all add: publish_contact_def)

lemma gmail_search_loop_handled:
  "handled_email_ids (snd (gmail_search_loop g publish mx msgs acc s)) = handled_email_ids s"
proof (induction msgs arbitrary: acc s)
  case Nil
  then show ?case by simp
next
  case (Cons x msgs)
  show ?case
  proof (cases x)
    case None
    then show ?thesis by simp
  next
    case (Some i)
    show ?thesis
    proof (cases "g_get g i")
      case None
      with Some Cons show ?thesis by simp
    next
      case (Some meta)
      with \<open>x = Some i\<close> Cons show ?thesis by simp
    qed
  qed
qed

lemma outlook_search_loop_handled:
  "handled_email_ids (snd (outlook_search_loop publish mx msgs acc s)) = handled_email_ids s"
  by (induction msgs arbitrary: acc s) simp_all

lemma gmail_search_loop_unhandled:
  "gmail_search_loop g publish mx msgs acc s = (Some res, s') \<Longrightarrow> handled_email_ids s = H \<Longrightarrow>
   (\<forall>c \<in> set acc. dget c ''id'' = [] \<or> dget c ''id'' \<notin> H) \<Longrightarrow>
   (\<forall>c \<in> set res. dget c ''id'' = [] \<or> dget c ''id'' \<notin> H)"
proof (induction msgs arbitrary: acc s)
  case Nil
  then show ?case by simp
next
  case (Cons x msgs)
  show ?case
  proof (cases x)
    case None
    with Cons.prems show ?thesis by simp
  next
    case (Some i)
    show ?thesis
    proof (cases "is_handled_email s i")
      case True
      with Some Cons.prems have "gmail_search_loop g publish mx msgs acc s = (Some res, s')" by simp
      from Cons.IH [OF this Cons.prems(2) Cons.prems(3)] show ?thesis .
    next
      case False
      then have ok: "i = [] \<or> i \<notin> H" using Cons.prems(2) by (auto simp: is_handled_email_def)
      show ?thesis
      proof (cases "g_get g i")
        case None
        with Some False Cons.prems show ?thesis by simp
      next
        case (Some meta)
        let ?c = "gmail_search_contact g (service_type s) i meta"
        have acc': "\<forall>c \<in> set (acc @ [?c]). dget c ''id'' = [] \<or> dget c ''id'' \<notin> H"
          using Cons.prems(3) ok by auto
        show ?thesis
        proof (cases "mx \<le> int (length acc) + 1")
          case True
          with Some False \<open>x = Some i\<close> Cons.prems(1) have "res = acc @ [?c]" by simp
          with acc' show ?thesis by simp
        next
          case nf: False
          with Some False \<open>x = Some i\<close> Cons.prems(1)
          have "gmail_search_loop g publish mx msgs (acc @ [?c]) (publish_contact publish ?c s)
                  = (Some res, s')" by simp
          from Cons.IH [OF this _ acc'] Cons.prems(2) show ?thesis by simp
        qed
      qed
    qed
  qed
qed

lemma outlook_search_loop_unhandled:
  "outlook_search_loop publish mx msgs acc s = (res, s') \<Longrightarrow> handled_email_ids s = H \<Longrightarrow>
   (\<forall>c \<in> set acc. dget c ''id'' = [] \<or> dget c ''id'' \<notin> H) \<Longrightarrow>
   (\<forall>c \<in> set res. dget c ''id'' = [] \<or> dget c ''id'' \<notin> H)"
proof (induction msgs arbitrary: acc s)
  case Nil
  then show ?case by simp
next
  case (Cons x msgs)
  show ?case
  proof (cases "om_isRead x \<or> is_handled_email s (dget (om_fields x) ''id'')")
    case True
    with Cons.prems have "outlook_search_loop publish mx msgs acc s = (res, s')" by simp
    from Cons.IH [OF this Cons.prems(2) Cons.prems(3)] show ?thesis .
  next
    case False
    then have ok: "dget (om_fields x) ''id'' = [] \<or> dget (om_fields x) ''id'' \<notin> H"
      using Cons.prems(2) by (auto simp: is_handled_email_def)
    let ?c = "outlook_search_contact (service_type s) x"
    have acc': "\<forall>c \<in> set (acc @ [?c]). dget c ''id'' = [] \<or> dget c ''id'' \<notin> H"
      using Cons.prems(3) ok by auto
    show ?thesis
    proof (cases "mx \<le> int (length acc) + 1")
      case True
      with False Cons.prems(1) have "res = acc @ [?c]" by simp
      with acc' show ?thesis by simp
    next
      case nf: False
      with False Cons.prems(1)
      have "outlook_search_loop publish mx msgs (acc @ [?c]) (publish_contact publish ?c s)
              = (res, s')" by simp
      from Cons.IH [OF this _ acc'] Cons.prems(2) show ?thesis by simp
    qed
  qed
qed

lemma gmail_search_items:
  assumes "fst (gmail_search_emails g m q mx publish s) = Returned (EmailList items)"
  shows "\<forall>c \<in> set items. dget c ''id'' = [] \<or> dget c ''id'' \<notin> handled_email_ids s"
proof -
  let ?s1 = "if publish then ensure_account_identity g m s else s"
  have h1: "handled_email_ids ?s1 = handled_email_ids s" by simp
  from assms have c: "g_connected g" by (auto simp: gmail_search_emails_def split: if_splits)
  from assms c obtain msgs where l: "g_list g (normalized_query q) mx = Some msgs"
    by (cases "g_list g (normalized_query q) mx") (simp_all add: gmail_search_emails_def Let_def)
  obtain r s2 where lp: "gmail_search_loop g publish mx msgs [] ?s1 = (r, s2)" by fastforce
  with assms c l have "r = Some items"
    by (cases r) (simp_all add: gmail_search_emails_def Let_def split: if_splits)
  with lp have "gmail_search_loop g publish mx msgs [] ?s1 = (Some items, s2)" by simp
  from gmail_search_loop_unhandled [OF this h1] show ?thesis by simp
qed

lemma outlook_search_items:
  assumes "fst (outlook_search_emails g m q mx publish s) = Returned (EmailList items)"
  shows "\<forall>c \<in> set items. dget c ''id'' = [] \<or> dget c ''id'' \<notin> handled_email_ids s"
proof -
  let ?s1 = "if publish then ensure_account_identity g m s else s"
  let ?ask = "if strip q = [] then m_list_messages m None mx else m_list_messages m (Some q) (mx * 3)"
  have h1: "handled_email_ids ?s1 = handled_email_ids s" by simp
  from assms obtain msgs where l: "?ask = Some msgs"
    by (cases ?ask) (simp_all add: outlook_search_emails_def Let_def)
  obtain r s2 where lp: "outlook_search_loop publish mx msgs [] ?s1 = (r, s2)" by fastforce
  with assms l have "r = items"
    by (simp add: outlook_search_emails_def Let_def split: if_splits)
  with lp have "outlook_search_loop publish mx msgs [] ?s1 = (items, s2)" by simp
  from outlook_search_loop_unhandled [OF this h1] show ?thesis by simp
qed

lemma handled_never_empty:
  "[] \<notin> handled_email_ids (init_session sv)"
  "[] \<notin> handled_email_ids s \<Longrightarrow> [] \<notin> handled_email_ids (remember_handled_email i s)"
  "[] \<notin> handled_email_ids s \<Longrightarrow> [] \<notin> handled_email_ids (forget_handled_email i s)"
  by (simp_all add: init_session_def remember_handled_email_def forget_handled_email_def)

text \<open>
  Claim C4.  An id \<open>i\<close> of the handled set is the id of no item that a search returns.
  (Ids are never empty there: \<^verbatim>\<open>_remember_handled_email\<close>, the one place that adds an id,
  skips an empty one.)
\<close>

theorem search_excludes_handled:
  assumes "i \<in> handled_email_ids s" and "i \<noteq> []"
  shows "(fst (gmail_search_emails g m q mx publish s) = Returned (EmailList items)
            \<longrightarrow> (\<forall>c \<in> set items. dget c ''id'' \<noteq> i))
       \<and> (fst (outlook_search_emails g m q mx publish s) = Returned (EmailList items)
            \<longrightarrow> (\<forall>c \<in> set items. dget c ''id'' \<noteq> i))"
  using assms gmail_search_items [of g m q mx publish s items]
    outlook_search_items [of g m q mx publish s items] by auto

theorem search_excludes_handled_witness:
  "''m1'' \<in> handled_email_ids session_marked \<and> ''m1'' \<noteq> []
   \<and> fst (gmail_search_emails gmail_up graph_up [] 5 True session_marked)
       = Returned (EmailList [gmail_search_contact gmail_up Google ''m2'' msg_ann])
   \<and> dget (gmail_search_contact gmail_up Google ''m2'' msg_ann) ''id'' \<noteq> ''m1''
   \<and> ''m1'' \<in> handled_email_ids session_marked_outlook
   \<and> fst (outlook_search_emails gmail_up graph_up [] 5 True session_marked_outlook)
       = Returned (EmailList [outlook_search_contact Microsoft omsg_ann])
   \<and> dget (outlook_search_contact Microsoft omsg_ann) ''id'' \<noteq> ''m1''"
proof -
  have h: "''m1'' \<in> handled_email_ids session_marked"
    "''m1'' \<in> handled_email_ids session_marked_outlook" "''m1'' \<noteq> []"
    by code_simp+
  have g: "fst (gmail_search_emails gmail_up graph_up [] 5 True session_marked)
       = Returned (EmailList [gmail_search_contact gmail_up Google ''m2'' msg_ann])"
    by code_simp
  have o: "fst (outlook_search_emails gmail_up graph_up [] 5 True session_marked_outlook)
       = Returned (EmailList [outlook_search_contact Microsoft omsg_ann])"
    by code_simp
  from search_excludes_handled [OF h(1) h(3), of gmail_up graph_up "[]" 5 True
      "[gmail_search_contact gmail_up Google ''m2'' msg_ann]"]
    search_excludes_handled [OF h(2) h(3), of gmail_up graph_up "[]" 5 True
      "[outlook_search_contact Microsoft omsg_ann]"] h g o
  show ?thesis by simp
qed

section \<open>The owner and the bound of the contact list\<close>

lemma overwrite_not_owner:
  "\<not> is_owner acc n \<Longrightarrow> \<not> is_owner acc e \<Longrightarrow> same_contact n e \<Longrightarrow> \<not> is_owner acc (overwrite n e)"
  by (auto simp: is_owner_def same_contact_def overwrite_def key_email_def key_name_def por_def Let_def
      split: option.splits if_splits)

lemma merge_existing_not_owner:
  "merge_existing n cs = Some cs' \<Longrightarrow> \<not> is_owner acc n \<Longrightarrow> list_all (\<lambda>e. \<not> is_owner acc e) cs
    \<Longrightarrow> list_all (\<lambda>e. \<not> is_owner acc e) cs'"
proof (induction cs arbitrary: cs')
  case Nil
  then show ?case by simp
next
  case (Cons e es)
  show ?case
  proof (cases "same_contact n e")
    case True
    with Cons.prems show ?thesis by (auto simp: overwrite_not_owner)
  next
    case False
    with Cons.prems obtain r where r: "merge_existing n es = Some r" "cs' = e # r" by auto
    with Cons.IH[OF r(1)] Cons.prems show ?thesis by simp
  qed
qed

lemma merge_existing_length: "merge_existing n cs = Some cs' \<Longrightarrow> length cs' = length cs"
  by (induction cs arbitrary: cs') (auto split: if_splits)

lemma list_all_take: "list_all P xs \<Longrightarrow> list_all P (take k xs)"
  by (auto simp: list_all_iff dest: in_set_takeD)

text \<open>
  What \<^verbatim>\<open>_merge_contact\<close> does keep.  The list never grows beyond 15 entries, whoever the
  owner is.  An observation that is the owner by the identity cached at that moment (the
  same lowercased email or, for an observation without email, the same lowercased name) is
  dropped, and a list without an entry of that owner is again such a list after the merge.
\<close>

lemma merge_contact_bound:
  "length (recent_contacts s) \<le> 15 \<Longrightarrow> length (recent_contacts (merge_contact obs s)) \<le> 15"
  by (simp add: merge_contact_def Let_def split: option.splits)

lemma merge_contact_drops_owner:
  "is_owner (account_identity s) (normalize_contact (service_type s) obs) \<Longrightarrow> merge_contact obs s = s"
  by (simp add: merge_contact_def Let_def)

lemma merge_contact_cached_owner:
  "list_all (\<lambda>e. \<not> is_owner (account_identity s) e) (recent_contacts s) \<Longrightarrow>
   list_all (\<lambda>e. \<not> is_owner (account_identity s) e) (recent_contacts (merge_contact obs s))"
  by (auto simp: merge_contact_def Let_def list_all_take dest: merge_existing_not_owner
      split: option.splits)

text \<open>
  Claim C6 fails in the code.  The owner test of \<^verbatim>\<open>_merge_contact\<close> compares with the
  identity that \<^verbatim>\<open>_ensure_account_identity\<close> has cached, and that is empty for as long as
  the profile request raises.  The first search of a new Gmail session cannot fetch the
  profile, so the owner is unknown and the owner's own message \<open>m9\<close> enters the contact
  list.  The second search fetches the profile; the owner is now \<open>me@x.com\<close>, and the list
  still holds the entry with that email: nothing takes it out.  The bound of 15 holds.
\<close>

theorem owner_in_contacts_late_identity:
  "account_identity (snd (gmail_search_emails gmail_self_noprofile graph_up [] 5 True
       (init_session Google)))
     = \<lparr> a_email = [], a_display_name = [] \<rparr>
   \<and> map c_email (recent_contacts (snd (gmail_search_emails gmail_self_noprofile graph_up [] 5 True
       (init_session Google))))
     = [''me@x.com'']
   \<and> a_email (account_identity session_late_identity) = ''me@x.com''
   \<and> map c_email (recent_contacts session_late_identity) = [''me@x.com'']
   \<and> list_all (is_owner (account_identity session_late_identity))
         (recent_contacts session_late_identity)
   \<and> \<not> contacts_ok (account_identity session_late_identity) (recent_contacts session_late_identity)
   \<and> length (recent_contacts session_late_identity) \<le> 15"
  by code_simp

section \<open>Suggestions: what is cut out, what is shown\<close>

declare scan_blocks.simps [simp del]

lemma split_at_Some: "split_at tag xs = Some (pre, post) \<Longrightarrow> xs = pre @ tag @ post"
proof (induction xs arbitrary: pre)
  case Nil
  then show ?case by (simp split: if_splits)
next
  case (Cons x xs)
  show ?case
  proof (cases "take (length tag) (x # xs) = tag")
    case True
    with Cons.prems have "pre = []" "post = drop (length tag) (x # xs)" by simp_all
    with True show ?thesis by (metis append_Nil append_take_drop_id)
  next
    case False
    with Cons.prems obtain q where q: "split_at tag xs = Some q" "pre = x # fst q" "post = snd q"
      by auto
    then have "split_at tag xs = Some (fst q, post)" by simp
    from Cons.IH [OF this] q show ?thesis by simp
  qed
qed

lemma scan_blocks_first:
  "split_at open_tag message = Some (pre, rest) \<Longrightarrow> split_at close_tag rest = Some (raw, post) \<Longrightarrow>
   scan_blocks message = (raw # fst (scan_blocks post), pre @ snd (scan_blocks post))"
  by (subst scan_blocks.simps) simp

lemma blocks_suggestions_malformed:
  "(\<forall>raw \<in> set raws. loads raw = None) \<Longrightarrow> blocks_suggestions loads raws = Some []"
  by (induction raws) (simp_all add: block_suggestions_def)

lemma map_option_append_Nil: "map_option ((@) []) x = x"
  by (cases x) simp_all

lemma blocks_suggestions_skip:
  "loads raw = None \<Longrightarrow>
   blocks_suggestions loads (before @ raw # after) = blocks_suggestions loads (before @ after)"
  by (induction before) (simp_all add: block_suggestions_def map_option_append_Nil split: option.splits)

lemma renderSuggestions_length: "length (renderSuggestions items) \<le> 3"
proof -
  have "length (concat (map f xs)) \<le> length xs" if "\<forall>x. length (f x) \<le> 1"
    for f :: "string \<times> string \<Rightarrow> (string \<times> string) list" and xs
    using that
  proof (induction xs)
    case Nil
    then show ?case by simp
  next
    case (Cons x xs)
    then have "length (f x) \<le> 1" by blast
    with Cons show ?case by simp
  qed
  from this [of _ "take 3 items"] have "length (renderSuggestions items) \<le> length (take 3 items)"
    by (simp add: renderSuggestions_def)
  then show ?thesis by simp
qed

text \<open>The first occurrence of a tag behind a text that has none is the one that follows the text.\<close>

lemma take_prefix: "n \<le> length xs \<Longrightarrow> take n (xs @ ys) = take n xs"
  by simp

lemma split_at_append_None:
  "tag \<noteq> [] \<Longrightarrow> split_at tag (t @ u) = None \<Longrightarrow> split_at tag t = None"
proof (induction t)
  case Nil
  then show ?case by simp
next
  case (Cons x t)
  from Cons.prems have n: "take (length tag) (x # t @ u) \<noteq> tag" and r: "split_at tag (t @ u) = None"
    by (auto split: if_splits)
  have "take (length tag) (x # t) \<noteq> tag"
  proof
    assume a: "take (length tag) (x # t) = tag"
    then have "length (take (length tag) (x # t)) = length tag" by simp
    then have "length tag \<le> length (x # t)" by (simp del: take_Suc_Cons)
    then have "take (length tag) (x # t @ u) = take (length tag) (x # t)"
      using take_prefix [of "length tag" "x # t" u] by simp
    with a n show False by simp
  qed
  with Cons.IH [OF Cons.prems(1) r] show ?case by simp
qed

lemma no_tag_split: "tag \<noteq> [] \<Longrightarrow> no_tag tag t \<Longrightarrow> split_at tag t = None"
  unfolding no_tag_def by (rule split_at_append_None)

lemma split_at_first:
  assumes "tag \<noteq> []" and "no_tag tag t"
  shows "split_at tag (t @ tag @ rest) = Some (t, rest)"
  using assms(2) unfolding no_tag_def
proof (induction t)
  case Nil
  from assms(1) obtain x xs where "tag @ rest = x # xs" by (cases tag) auto
  moreover have "take (length tag) (tag @ rest) = tag" "drop (length tag) (tag @ rest) = rest"
    by simp_all
  ultimately show ?case by (metis append_Nil split_at.simps(2))
next
  case (Cons x t)
  from Cons.prems have n: "take (length tag) (x # t @ butlast tag) \<noteq> tag"
    and r: "split_at tag (t @ butlast tag) = None"
    by (auto split: if_splits)
  obtain bl la where tg: "tag = bl @ [la]" using assms(1) by (metis append_butlast_last_id)
  have bl: "butlast tag = bl" by (simp add: tg)
  have e: "x # t @ tag @ rest = (x # t @ bl) @ (la # rest)" by (simp add: tg)
  have l: "length tag \<le> length (x # t @ bl)" by (simp add: tg)
  have "take (length tag) (x # t @ tag @ rest) = take (length tag) (x # t @ butlast tag)"
    unfolding bl e using l by (rule take_prefix)
  with n Cons.IH [OF r] show ?case by simp
qed

text \<open>
  On a well tagged message the scan finds the payloads of all blocks, in their order, and
  leaves the texts without any block.
\<close>

lemma scan_blocks_assemble:
  "well_tagged t0 blocks \<Longrightarrow>
   scan_blocks (assemble t0 blocks) = (map block_payload blocks, t0 @ concat (map text_after blocks))"
proof (induction blocks arbitrary: t0)
  case Nil
  then have "split_at open_tag t0 = None" by (simp add: no_tag_split open_tag_def)
  then show ?case by (subst scan_blocks.simps) simp
next
  case (Cons b blocks)
  then have w: "no_tag open_tag t0" "no_tag close_tag (block_payload b)"
    "well_tagged (text_after b) blocks" by simp_all
  have o: "split_at open_tag (assemble t0 (b # blocks))
             = Some (t0, block_payload b @ close_tag @ assemble (text_after b) blocks)"
    using split_at_first [OF _ w(1)] by (simp add: open_tag_def)
  have c: "split_at close_tag (block_payload b @ close_tag @ assemble (text_after b) blocks)
             = Some (block_payload b, assemble (text_after b) blocks)"
    using split_at_first [OF _ w(2)] by (simp add: close_tag_def)
  from scan_blocks_first [OF o c] Cons.IH [OF w(3)] show ?case by simp
qed

lemma strip_Nil: "strip [] = []"
  by (simp add: strip_def)

lemma item_suggestion_item_of:
  assumes "strip (fst p) \<noteq> []" and "strip (snd p) \<noteq> []"
  shows "item_suggestion (item_of p) = Some [(strip (fst p), strip (snd p))]"
proof -
  from assms have "fst p \<noteq> []" "snd p \<noteq> []" using strip_Nil by auto
  with assms show ?thesis by (simp add: item_of_def jget_def jor_def)
qed

lemma items_suggestions_item_of:
  "list_all (\<lambda>p. strip (fst p) \<noteq> [] \<and> strip (snd p) \<noteq> []) ps \<Longrightarrow>
   items_suggestions (map item_of ps) = Some (map (\<lambda>p. (strip (fst p), strip (snd p))) ps)"
  by (induction ps) (simp_all add: item_suggestion_item_of)

lemma block_suggestions_parsed:
  "parsed_as loads b \<Longrightarrow> block_suggestions loads (block_payload b) = Some (block_pairs b)"
  by (cases "block_listed b")
     (simp_all add: parsed_as_def block_suggestions_def block_pairs_def payload_of_def
        items_suggestions_item_of)

lemma blocks_suggestions_parsed:
  "list_all (parsed_as loads) blocks \<Longrightarrow>
   blocks_suggestions loads (map block_payload blocks) = Some (concat (map block_pairs blocks))"
  by (induction blocks) (simp_all add: block_suggestions_parsed)

lemma extract_suggestions_assemble:
  assumes "well_tagged t0 blocks" and "list_all (parsed_as loads) blocks"
  shows "extract_suggestions loads (assemble t0 blocks)
           = Some (strip (t0 @ concat (map text_after blocks)), concat (map block_pairs blocks))"
proof (cases "assemble t0 blocks = []")
  case True
  then have "blocks = []" "t0 = []" by (cases blocks; auto simp: open_tag_def)+
  then show ?thesis by (simp add: extract_suggestions_def strip_Nil)
next
  case False
  with scan_blocks_assemble [OF assms(1)] blocks_suggestions_parsed [OF assms(2)]
  show ?thesis by (simp add: extract_suggestions_def)
qed

text \<open>
  Claim C9, as the source has it.  For a well tagged message whose payloads are either not
  JSON or list pairs with a label and a prompt that are not blank, \<^verbatim>\<open>_extract_suggestions\<close>
  returns the texts of the message without any block, stripped, and all the pairs of all
  the blocks that parse, stripped and in their order, however many they are; a block that
  is not JSON is cut out like the others and adds nothing.  For any message: a block, from
  the first opening tag to the first closing tag after it, is cut out of the text and its
  payload goes to the parser, and what follows the block is scanned the same way; a payload
  that is not JSON changes nothing for the other blocks; and when no payload is JSON the
  call returns the stripped text without blocks and no suggestions.  The bound of 3 is the
  client's: \<^verbatim>\<open>renderSuggestions\<close> shows at most 3 chips.
\<close>

theorem extract_suggestions_blocks:
  "(well_tagged t0 blocks \<and> list_all (parsed_as loads) blocks
      \<longrightarrow> extract_suggestions loads (assemble t0 blocks)
            = Some (strip (t0 @ concat (map text_after blocks)), concat (map block_pairs blocks)))
   \<and> (split_at open_tag message = Some (pre, rest) \<and> split_at close_tag rest = Some (raw, post)
      \<longrightarrow> message = pre @ open_tag @ raw @ close_tag @ post
          \<and> scan_blocks message = (raw # fst (scan_blocks post), pre @ snd (scan_blocks post)))
   \<and> (loads raw = None
      \<longrightarrow> blocks_suggestions loads (before @ raw # after) = blocks_suggestions loads (before @ after))
   \<and> (message \<noteq> [] \<and> (\<forall>r \<in> set (fst (scan_blocks message)). loads r = None)
      \<longrightarrow> extract_suggestions loads message = Some (strip (snd (scan_blocks message)), []))
   \<and> length (renderSuggestions items) \<le> 3"
proof (intro conjI impI)
  assume "well_tagged t0 blocks \<and> list_all (parsed_as loads) blocks"
  then show "extract_suggestions loads (assemble t0 blocks)
            = Some (strip (t0 @ concat (map text_after blocks)), concat (map block_pairs blocks))"
    using extract_suggestions_assemble by blast
next
  assume a: "split_at open_tag message = Some (pre, rest) \<and> split_at close_tag rest = Some (raw, post)"
  then have "message = pre @ open_tag @ rest" "rest = raw @ close_tag @ post"
    using split_at_Some by blast+
  then show "message = pre @ open_tag @ raw @ close_tag @ post" by simp
  from a show "scan_blocks message = (raw # fst (scan_blocks post), pre @ snd (scan_blocks post))"
    using scan_blocks_first by blast
next
  assume "loads raw = None"
  then show "blocks_suggestions loads (before @ raw # after) = blocks_suggestions loads (before @ after)"
    by (rule blocks_suggestions_skip)
next
  assume "message \<noteq> [] \<and> (\<forall>r \<in> set (fst (scan_blocks message)). loads r = None)"
  then show "extract_suggestions loads message = Some (strip (snd (scan_blocks message)), [])"
    by (simp add: extract_suggestions_def blocks_suggestions_malformed)
next
  show "length (renderSuggestions items) \<le> 3" by (rule renderSuggestions_length)
qed

theorem extract_suggestions_blocks_witness:
  "well_tagged ''Sent. '' blocks_mixed
   \<and> list_all (parsed_as demo_loads) blocks_mixed
   \<and> assemble ''Sent. '' blocks_mixed
       = ''Sent. <suggestions>'' @ payload_two
           @ ''</suggestions> Or <suggestions>{oops</suggestions>wait. ''
   \<and> extract_suggestions demo_loads (assemble ''Sent. '' blocks_mixed)
       = Some (''Sent.  Or wait.'', [(''Yes'', ''Send it''), (''No'', ''Discard it'')])
   \<and> split_at open_tag message_broken = Some (''All done. '', ''{oops</suggestions>'')
   \<and> split_at close_tag ''{oops</suggestions>'' = Some (''{oops'', [])
   \<and> message_broken = ''All done. '' @ open_tag @ ''{oops'' @ close_tag @ []
   \<and> scan_blocks message_broken = ([''{oops''], ''All done. '')
   \<and> demo_loads ''{oops'' = None
   \<and> blocks_suggestions demo_loads ([payload_four] @ ''{oops'' # [])
       = blocks_suggestions demo_loads ([payload_four] @ [])
   \<and> message_broken \<noteq> []
   \<and> map demo_loads (fst (scan_blocks message_broken)) = [None]
   \<and> extract_suggestions demo_loads message_broken = Some (''All done.'', [])"
proof -
  have w: "well_tagged ''Sent. '' blocks_mixed \<and> list_all (parsed_as demo_loads) blocks_mixed"
    by code_simp
  have m: "assemble ''Sent. '' blocks_mixed
       = ''Sent. <suggestions>'' @ payload_two
           @ ''</suggestions> Or <suggestions>{oops</suggestions>wait. ''"
    by code_simp
  have r: "strip (''Sent. '' @ concat (map text_after blocks_mixed)) = ''Sent.  Or wait.''"
    "concat (map block_pairs blocks_mixed) = [(''Yes'', ''Send it''), (''No'', ''Discard it'')]"
    by code_simp+
  have s: "split_at open_tag message_broken = Some (''All done. '', ''{oops</suggestions>'')
           \<and> split_at close_tag ''{oops</suggestions>'' = Some (''{oops'', [])"
    by code_simp
  have sb: "scan_blocks [] = ([], [])" by code_simp
  have l: "demo_loads ''{oops'' = None" by code_simp
  have ne: "message_broken \<noteq> []" by (simp add: message_broken_def)
  from extract_suggestions_blocks [of "''Sent. ''" blocks_mixed demo_loads] w
  have "extract_suggestions demo_loads (assemble ''Sent. '' blocks_mixed)
       = Some (strip (''Sent. '' @ concat (map text_after blocks_mixed)),
               concat (map block_pairs blocks_mixed))"
    by blast
  then have 0: "extract_suggestions demo_loads (assemble ''Sent. '' blocks_mixed)
       = Some (''Sent.  Or wait.'', [(''Yes'', ''Send it''), (''No'', ''Discard it'')])"
    unfolding r .
  from extract_suggestions_blocks [of "''Sent. ''" blocks_mixed demo_loads message_broken
      "''All done. ''" "''{oops</suggestions>''" "''{oops''" "[]" "[payload_four]" "[]"] s l
  have 1: "message_broken = ''All done. '' @ open_tag @ ''{oops'' @ close_tag @ []"
    "scan_blocks message_broken = ([''{oops''], ''All done. '')"
    "blocks_suggestions demo_loads ([payload_four] @ ''{oops'' # [])
       = blocks_suggestions demo_loads ([payload_four] @ [])"
    by (simp_all add: sb)
  then have a: "\<forall>r \<in> set (fst (scan_blocks message_broken)). demo_loads r = None"
    using l by simp
  have st: "strip ''All done. '' = ''All done.''" by code_simp
  from extract_suggestions_blocks [of "''Sent. ''" blocks_mixed demo_loads message_broken
      "''All done. ''" "''{oops</suggestions>''" "''{oops''" "[]" "[payload_four]" "[]"] ne a 1(2) st
  have 2: "extract_suggestions demo_loads message_broken = Some (''All done.'', [])"
    by simp
  have d: "map demo_loads (fst (scan_blocks message_broken)) = [None]"
    using 1(2) l by simp
  from w m 0 s l ne d 1 2 show ?thesis by blast
qed

text \<open>
  Claim C9 as the specification words it fails: for a message whose block lists four
  suggestions, \<^verbatim>\<open>_extract_suggestions\<close> returns all four.
\<close>

theorem extract_suggestions_unbounded_counterexample:
  "extract_suggestions demo_loads message_four
     = Some (''Pick one.'', [(''A'', ''A''), (''B'', ''B''), (''C'', ''C''), (''D'', ''D'')])"
  by code_simp

end
